theory Spec2Isabelle
  imports Complex_Main
begin

section \<open>vectorizer.js\<close>

subsection \<open>Characters\<close>

text \<open>
  Documents are strings, modelled as lists of characters; \<open>length\<close> is what the
  source's \<open>.length\<close> reads.  The character classes below are the ones the two
  regular expressions of the repository use.
\<close>

definition code :: "char \<Rightarrow> nat" where
  "code c = of_char c"

definition isHexDigit :: "char \<Rightarrow> bool" where
  \<comment> \<open>\<open>[0-9A-F]\<close> under the \<open>i\<close> flag\<close>
  "isHexDigit c = ((48 \<le> code c \<and> code c \<le> 57) \<or> (97 \<le> code c \<and> code c \<le> 102)
     \<or> (65 \<le> code c \<and> code c \<le> 70))"

definition isAlpha :: "char \<Rightarrow> bool" where
  \<comment> \<open>\<open>[a-zA-Z]\<close>\<close>
  "isAlpha c = ((97 \<le> code c \<and> code c \<le> 122) \<or> (65 \<le> code c \<and> code c \<le> 90))"

definition isWordChar :: "char \<Rightarrow> bool" where
  \<comment> \<open>\<open>\w\<close>, the class that decides \<open>\b\<close>\<close>
  "isWordChar c = (isAlpha c \<or> (48 \<le> code c \<and> code c \<le> 57) \<or> code c = 95)"

definition isLineTerminator :: "char \<Rightarrow> bool" where
  \<comment> \<open>the characters \<open>.\<close> does not match: line feed and carriage return\<close>
  "isLineTerminator c = (code c = 10 \<or> code c = 13)"

definition hexVal :: "char \<Rightarrow> nat" where
  "hexVal c = (if 48 \<le> code c \<and> code c \<le> 57 then code c - 48
     else if 97 \<le> code c \<and> code c \<le> 102 then code c - 87
     else code c - 55)"

definition parseInt16 :: "string \<Rightarrow> nat option" where
  \<comment> \<open>\<open>parseInt(s, 16)\<close> on a string that starts with its digits: the value of the
      longest run of hex digits, \<open>None\<close> (NaN) when there is none\<close>
  "parseInt16 s = (let ds = takeWhile isHexDigit s in
     if ds = [] then None else Some (foldl (\<lambda>acc c. 16 * acc + hexVal c) 0 ds))"

subsection \<open>Colour quantisation\<close>

definition roundHexComponent :: "string \<Rightarrow> string" where
  \<comment> \<open>every comparison with NaN is false, so NaN falls through to the last line\<close>
  "roundHexComponent hexPair = (case parseInt16 hexPair of
       None \<Rightarrow> ''FF''
     | Some dec \<Rightarrow>
         if dec < 26 then ''00''
         else if dec < 77 then ''33''
         else if dec < 128 then ''66''
         else if dec < 179 then ''99''
         else if dec < 230 then ''CC''
         else ''FF'')"

fun hexColorMatch :: "string \<Rightarrow> (string \<times> string \<times> string) option" where
  \<comment> \<open>a match of \<open>#([0-9A-F]{2})([0-9A-F]{2})([0-9A-F]{2})\b\<close> at the head of the
      string: the three captured pairs.  The sixth digit is a word character, so
      \<open>\b\<close> holds when the input ends there or a non-word character follows.\<close>
  "hexColorMatch (h # r1 # r2 # g1 # g2 # b1 # b2 # rest) =
     (if h = CHR ''#'' \<and> isHexDigit r1 \<and> isHexDigit r2 \<and> isHexDigit g1 \<and> isHexDigit g2
         \<and> isHexDigit b1 \<and> isHexDigit b2
         \<and> (case rest of [] \<Rightarrow> True | c # _ \<Rightarrow> \<not> isWordChar c)
      then Some ([r1, r2], [g1, g2], [b1, b2]) else None)"
| "hexColorMatch _ = None"

fun roundHexColors :: "string \<Rightarrow> string" where
  \<comment> \<open>\<open>svg.replace(hexColorRegex, ...)\<close> with the \<open>g\<close> flag: left to right, a match is
      replaced and the scan goes on after it, any other character is kept\<close>
  "roundHexColors [] = []"
| "roundHexColors (c # cs) = (case hexColorMatch (c # cs) of
       Some (r, g, b) \<Rightarrow>
         CHR ''#'' # roundHexComponent r @ roundHexComponent g @ roundHexComponent b
           @ roundHexColors (drop 6 cs)
     | None \<Rightarrow> c # roundHexColors cs)"

subsection \<open>Optimiser configuration\<close>

text \<open>
  The configuration handed to the size optimiser.  Only the list of plugins depends on
  the argument; the parameters of each plugin are constants of the source and are not
  repeated here.
\<close>

record svgo_config =
  multipass :: bool
  pretty :: bool
  indent :: nat
  useShortTags :: bool
  plugins :: "string list"

definition getSvgoConfig :: "bool \<Rightarrow> svgo_config" where
  "getSvgoConfig shortHex =
     (let config = \<lparr> multipass = True, pretty = False, indent = 0, useShortTags = True,
            plugins = [''preset-default'', ''removeXMLProcInst'', ''removeComments'',
                       ''removeUselessStrokeAndFill''] \<rparr>
      in if shortHex then config\<lparr> plugins := plugins config @ [''convertColors''] \<rparr>
         else config)"

subsection \<open>The conversion operation\<close>

datatype ColorMode = Color | Binary
datatype Hierarchical = Stacked | Cutout
datatype PathSimplifyMode = NoSimplify | Polygon | Spline

record options =
  opt_filterSpeckle :: "rat option"
  opt_colorPrecision :: "rat option"
  opt_layerDifference :: "rat option"
  opt_cornerThreshold :: "rat option"
  opt_lengthThreshold :: "rat option"
  opt_maxIterations :: "rat option"
  opt_spliceThreshold :: "rat option"
  opt_pathPrecision :: "rat option"
  opt_optimize :: "bool option"
  opt_shortHex :: "bool option"

definition noOptions :: options where
  "noOptions = \<lparr> opt_filterSpeckle = None, opt_colorPrecision = None,
     opt_layerDifference = None, opt_cornerThreshold = None, opt_lengthThreshold = None,
     opt_maxIterations = None, opt_spliceThreshold = None, opt_pathPrecision = None,
     opt_optimize = None, opt_shortHex = None \<rparr>"

record config =
  colorMode :: ColorMode
  hierarchical :: Hierarchical
  filterSpeckle :: rat
  colorPrecision :: rat
  layerDifference :: rat
  mode :: PathSimplifyMode
  cornerThreshold :: rat
  lengthThreshold :: rat
  maxIterations :: rat
  spliceThreshold :: rat
  pathPrecision :: rat

definition orDefault :: "'a option \<Rightarrow> 'a \<Rightarrow> 'a" where
  \<comment> \<open>the \<open>??\<close> operator\<close>
  "orDefault x d = (case x of None \<Rightarrow> d | Some v \<Rightarrow> v)"

definition mkConfig :: "options \<Rightarrow> config" where
  "mkConfig opts = \<lparr> colorMode = Color, hierarchical = Stacked,
     filterSpeckle = orDefault (opt_filterSpeckle opts) 2,
     colorPrecision = orDefault (opt_colorPrecision opts) 8,
     layerDifference = orDefault (opt_layerDifference opts) 2,
     mode = Spline,
     cornerThreshold = orDefault (opt_cornerThreshold opts) 80,
     lengthThreshold = orDefault (opt_lengthThreshold opts) 1,
     maxIterations = orDefault (opt_maxIterations opts) 50,
     spliceThreshold = orDefault (opt_spliceThreshold opts) 3,
     pathPrecision = orDefault (opt_pathPrecision opts) 3 \<rparr>"

record stats =
  vectorizeTime :: rat
  optimizeTime :: rat
  originalSize :: nat
  finalSize :: nat
  sizeReduction :: "rat option"

record vresult =
  vr_svg :: string
  vr_stats :: stats

type_synonym buffer = string

record exception_info =
  ex_timestamp :: int
  ex_message :: string
  ex_stack :: string
  ex_type :: string
  ex_source :: "string option"
  ex_line :: "int option"
  ex_column :: "int option"

text \<open>
  What the program takes from outside: the vectorisation engine and the optimiser (each
  returns its document, or throws, \<open>Inl\<close> with the message), the base64 decoder, the two
  clocks (the n-th reading of each), and the two renderers the query tool calls
  (\<open>toISOString\<close> on a valid date, \<open>JSON.stringify\<close> on the exception).
\<close>

record env =
  vectorize :: "buffer \<Rightarrow> config \<Rightarrow> string + string"
  optimize :: "string \<Rightarrow> svgo_config \<Rightarrow> string + string"
  fromBase64 :: "string \<Rightarrow> buffer"
  dateNow :: "nat \<Rightarrow> int"
  performanceNow :: "nat \<Rightarrow> rat"
  toISOString :: "int \<Rightarrow> string"
  stringify :: "exception_info \<Rightarrow> string"

text \<open>
  The part of the world a call changes: how many readings each clock has given, and the
  lines written with \<open>console.error\<close>.
\<close>

record world =
  dateTicks :: nat
  perfTicks :: nat
  errors :: "string list"

definition perfNow :: "env \<Rightarrow> 'w world_scheme \<Rightarrow> rat \<times> 'w world_scheme" where
  "perfNow e w = (performanceNow e (perfTicks w), w\<lparr> perfTicks := Suc (perfTicks w) \<rparr>)"

definition consoleError :: "string \<Rightarrow> 'w world_scheme \<Rightarrow> 'w world_scheme" where
  "consoleError msg w = w\<lparr> errors := errors w @ [msg] \<rparr>"

definition reduction :: "nat \<Rightarrow> nat \<Rightarrow> rat option" where
  \<comment> \<open>\<open>100 - (finalSvg.length / svg.length) * 100\<close>; dividing by the length 0 gives NaN
      or an infinity, the value \<open>None\<close>\<close>
  "reduction final original =
     (if original = 0 then None
      else Some (100 - (rat_of_nat final / rat_of_nat original) * 100))"

definition runOptimizer ::
  "env \<Rightarrow> options \<Rightarrow> string \<Rightarrow> 'w world_scheme \<Rightarrow> (string \<times> rat) \<times> 'w world_scheme" where
  \<comment> \<open>the body of \<open>if (options.optimize !== false)\<close>: the final document and the
      optimisation time\<close>
  "runOptimizer e opts svg w =
     (let (optimizeStart, w1) = perfNow e w;
          processedSvg = (if opt_shortHex opts \<noteq> Some False then roundHexColors svg else svg);
          svgoConfig = getSvgoConfig (opt_shortHex opts \<noteq> Some False)
      in case optimize e processedSvg svgoConfig of
           Inr data \<Rightarrow> (let (t, w2) = perfNow e w1 in ((data, t - optimizeStart), w2))
         | Inl msg \<Rightarrow> ((svg, 0), consoleError (''Error during SVG optimization: '' @ msg) w1))"

definition vectorizeImage_start ::
  "env \<Rightarrow> options \<Rightarrow> 'w world_scheme \<Rightarrow> (config \<times> rat) \<times> 'w world_scheme" where
  \<comment> \<open>up to the call of the engine: the configuration and \<open>vectorizeStart\<close>\<close>
  "vectorizeImage_start e opts w = (let (vectorizeStart, w1) = perfNow e w
     in ((mkConfig opts, vectorizeStart), w1))"

definition vectorizeImage_resume ::
  "env \<Rightarrow> options \<Rightarrow> rat \<Rightarrow> string \<Rightarrow> 'w world_scheme \<Rightarrow> vresult \<times> 'w world_scheme" where
  \<comment> \<open>from the engine's document \<open>svg\<close> on\<close>
  "vectorizeImage_resume e opts vectorizeStart svg w =
     (let (t1, w1) = perfNow e w;
          ((finalSvg, optTime), w2) =
             (if opt_optimize opts \<noteq> Some False then runOptimizer e opts svg w1
              else ((svg, 0), w1))
      in (\<lparr> vr_svg = finalSvg,
            vr_stats = \<lparr> vectorizeTime = t1 - vectorizeStart, optimizeTime = optTime,
              originalSize = length svg, finalSize = length finalSvg,
              sizeReduction = reduction (length finalSvg) (length svg) \<rparr> \<rparr>, w2))"

definition vectorizeImage ::
  "env \<Rightarrow> buffer \<Rightarrow> options \<Rightarrow> 'w world_scheme \<Rightarrow> (string + vresult) \<times> 'w world_scheme" where
  \<comment> \<open>the whole call, with the engine answering at once\<close>
  "vectorizeImage e inputBuffer opts w =
     (let ((cfg, vectorizeStart), w1) = vectorizeImage_start e opts w
      in case vectorize e inputBuffer cfg of
           Inl msg \<Rightarrow> (Inl msg, w1)
         | Inr svg \<Rightarrow> (let (r, w2) = vectorizeImage_resume e opts vectorizeStart svg w1
                      in (Inr r, w2)))"

section \<open>mcp.js\<close>

subsection \<open>Numbers and values as text\<close>

definition digit :: "nat \<Rightarrow> char" where
  "digit d = char_of (48 + d)"

fun showNat :: "nat \<Rightarrow> string" where
  "showNat n = (if n < 10 then [digit n] else showNat (n div 10) @ [digit (n mod 10)])"

declare showNat.simps [simp del]

definition showInt :: "int \<Rightarrow> string" where
  \<comment> \<open>an integer inside a template literal\<close>
  "showInt i = (if i < 0 then CHR ''-'' # showNat (nat (- i)) else showNat (nat i))"

datatype logval = LStr string | LNum int | LBool bool | LNull | LUndefined | LObject

definition toStr :: "logval \<Rightarrow> string" where
  \<comment> \<open>what \<open>Array.prototype.join\<close> makes of an element\<close>
  "toStr v = (case v of LStr s \<Rightarrow> s | LNum i \<Rightarrow> showInt i
     | LBool b \<Rightarrow> (if b then ''true'' else ''false'')
     | LNull \<Rightarrow> [] | LUndefined \<Rightarrow> [] | LObject \<Rightarrow> ''[object Object]'')"

fun joinWith :: "string \<Rightarrow> string list \<Rightarrow> string" where
  "joinWith sep [] = []"
| "joinWith sep [x] = x"
| "joinWith sep (x # y # ys) = x @ sep @ joinWith sep (y # ys)"

definition newline :: string where
  "newline = [CHR 0x0A]"

subsection \<open>Captures\<close>

record log_entry =
  le_timestamp :: int
  le_data :: "logval list"

record vectorized =
  svg :: "string option"
  imageType :: "string option"
  stats :: "stats option"

record capture =
  cap_id :: string
  timestamp :: int
  console_logs :: "log_entry list"
  console_errors :: "log_entry list"
  unhandled_exception :: "exception_info option"
  vectorized :: "vectorized option"

text \<open>The message of a producer; \<open>None\<close> is a field that is missing or null.\<close>

record message =
  msg_timestamp :: "int option"
  msg_image :: "string option"
  msg_console_logs :: "log_entry list option"
  msg_console_errors :: "log_entry list option"
  msg_unhandled_exception :: "exception_info option"

text \<open>
  The object handed to the producer's callback; \<open>None\<close> is a property that is not
  there, or null.
\<close>

record ack =
  ack_success :: bool
  ack_id :: "string option"
  ack_processedAt :: "int option"
  ack_svg :: "string option"
  ack_stats :: "stats option"
  ack_mcpRequestCount :: "nat option"
  ack_mcpRequestWithoutSvgCount :: "nat option"
  ack_error :: "string option"

record content_item =
  item_type :: string
  item_text :: string

record tool_result =
  tr_success :: bool
  tr_content :: "content_item list"

text \<open>
  A handler of \<open>debugCapture\<close> that waits for the engine: what it holds while the
  engine works on its image.
\<close>

record job =
  j_capture :: capture
  j_callback :: "nat option"
  j_imageType :: string
  j_buffer :: buffer
  j_config :: config
  j_vectorizeStart :: rat

record server = world +
  latestCapture :: "capture option"
  mcpRequestCount :: nat
  mcpRequestWithoutSvgCount :: nat
  pending :: "job list"

definition initialServer :: server where
  "initialServer = \<lparr> dateTicks = 0, perfTicks = 0, errors = [], latestCapture = None,
     mcpRequestCount = 0, mcpRequestWithoutSvgCount = 0, pending = [] \<rparr>"

datatype emitted =
    Callback nat ack
  | ToolReturn "string + tool_result"
  | HttpJson capture
  | HttpNotFound string
  | LatestReply nat bool "capture option" "string option" "stats option" "string option"
  | CaptureStatus bool int

definition dateNowTick :: "env \<Rightarrow> 'w world_scheme \<Rightarrow> int \<times> 'w world_scheme" where
  "dateNowTick e w = (dateNow e (dateTicks w), w\<lparr> dateTicks := Suc (dateTicks w) \<rparr>)"

subsection \<open>Receiving a capture\<close>

definition matchDataUrl :: "string \<Rightarrow> (string \<times> string) option" where
  \<comment> \<open>\<open>dataUrl.match(/^data:image\/([a-zA-Z]+);base64,(.+)$/)\<close>: the two groups\<close>
  "matchDataUrl dataUrl =
     (if take 11 dataUrl = ''data:image/'' then
        (let r = drop 11 dataUrl;
             imageType = takeWhile isAlpha r;
             r' = dropWhile isAlpha r;
             base64Data = drop 8 r'
         in if imageType \<noteq> [] \<and> take 8 r' = '';base64,'' \<and> base64Data \<noteq> []
               \<and> list_all (\<lambda>c. \<not> isLineTerminator c) base64Data
            then Some (imageType, base64Data) else None)
      else None)"

definition debugOptions :: options where
  \<comment> \<open>\<open>{ filterSpeckle: 4, maxIterations: 30 }\<close>\<close>
  "debugOptions = noOptions\<lparr> opt_filterSpeckle := Some 4, opt_maxIterations := Some 30 \<rparr>"

definition publish :: "env \<Rightarrow> capture \<Rightarrow> nat option \<Rightarrow> server \<Rightarrow> emitted list \<times> server" where
  \<comment> \<open>\<open>latestCapture = capture\<close>, then the callback, if there is one\<close>
  "publish e cap callback s =
     (let s1 = s\<lparr> latestCapture := Some cap \<rparr>
      in case callback of
           None \<Rightarrow> ([], s1)
         | Some cb \<Rightarrow>
             (let (t, s2) = dateNowTick e s1
              in ([Callback cb \<lparr> ack_success = True, ack_id = Some (cap_id cap),
                     ack_processedAt = Some t,
                     ack_svg = (case vectorized cap of None \<Rightarrow> None | Some v \<Rightarrow> svg v),
                     ack_stats = (case vectorized cap of None \<Rightarrow> None | Some v \<Rightarrow> stats v),
                     ack_mcpRequestCount = Some (mcpRequestCount s2),
                     ack_mcpRequestWithoutSvgCount = Some (mcpRequestWithoutSvgCount s2),
                     ack_error = None \<rparr>], s2)))"

text \<open>
  What \<open>processDataUrl\<close> returns: \<open>{ imageType, svg, stats }\<close>, or \<open>{ error }\<close> with the
  message of the error it caught.
\<close>

record image_result =
  ir_imageType :: "string option"
  ir_svg :: "string option"
  ir_stats :: "stats option"
  ir_error :: "string option"

definition errorResult :: "string \<Rightarrow> image_result" where
  "errorResult msg = \<lparr> ir_imageType = None, ir_svg = None, ir_stats = None, ir_error = Some msg \<rparr>"

definition processDataUrl_start ::
  "env \<Rightarrow> string \<Rightarrow> 'w world_scheme
     \<Rightarrow> (image_result + string \<times> buffer \<times> config \<times> rat) \<times> 'w world_scheme" where
  \<comment> \<open>up to the call of the engine (\<open>Inr\<close>: the image type, the engine's arguments and
      \<open>vectorizeStart\<close>), or to the end when the URL does not match\<close>
  "processDataUrl_start e dataUrl w =
     (case matchDataUrl dataUrl of
        None \<Rightarrow> (Inl (errorResult ''Invalid data URL format''),
                 consoleError ''Error processing data URL: Invalid data URL format'' w)
      | Some (ty, base64Data) \<Rightarrow>
          (let imageBuffer = fromBase64 e base64Data;
               ((cfg, vectorizeStart), w1) = vectorizeImage_start e debugOptions w
           in (Inr (ty, imageBuffer, cfg, vectorizeStart), w1)))"

definition processDataUrl_resume ::
  "env \<Rightarrow> string \<Rightarrow> rat \<Rightarrow> string + string \<Rightarrow> 'w world_scheme
     \<Rightarrow> image_result \<times> 'w world_scheme" where
  \<comment> \<open>from the moment the engine settles, with its document or with the message it
      threw\<close>
  "processDataUrl_resume e ty vectorizeStart settled w =
     (case settled of
        Inl msg \<Rightarrow> (errorResult msg, consoleError (''Error processing data URL: '' @ msg) w)
      | Inr doc \<Rightarrow>
          (let (result, w1) = vectorizeImage_resume e debugOptions vectorizeStart doc w
           in (\<lparr> ir_imageType = Some ty, ir_svg = Some (vr_svg result),
                 ir_stats = Some (vr_stats result), ir_error = None \<rparr>, w1)))"

definition withImageResult ::
  "env \<Rightarrow> capture \<Rightarrow> nat option \<Rightarrow> image_result \<Rightarrow> server \<Rightarrow> emitted list \<times> server" where
  \<comment> \<open>the handler from \<open>if (!imageResult.error)\<close> on; a missing error and the empty
      message are falsy\<close>
  "withImageResult e cap callback imageResult s =
     (let stored = cap\<lparr> vectorized := Some \<lparr> svg = ir_svg imageResult,
            imageType = ir_imageType imageResult, stats = ir_stats imageResult \<rparr> \<rparr>
      in case ir_error imageResult of
           None \<Rightarrow> publish e stored callback s
         | Some msg \<Rightarrow>
             if msg = [] then publish e stored callback s
             else publish e cap callback (consoleError (''Image processing failed: '' @ msg) s))"

definition createCapture :: "env \<Rightarrow> message \<Rightarrow> server \<Rightarrow> capture \<times> server" where
  \<comment> \<open>the object literal \<open>capture\<close>: \<open>||\<close> takes its right operand when the left one
      is missing, null or 0; the second reading of the clock is taken only then\<close>
  "createCapture e d s =
     (let (t0, s1) = dateNowTick e s;
          (ts, s2) = (case msg_timestamp d of
                        None \<Rightarrow> dateNowTick e s1
                      | Some t \<Rightarrow> if t = 0 then dateNowTick e s1 else (t, s1))
      in (\<lparr> cap_id = ''capture_'' @ showInt t0, timestamp = ts,
            console_logs = orDefault (msg_console_logs d) [],
            console_errors = orDefault (msg_console_errors d) [],
            unhandled_exception = msg_unhandled_exception d,
            vectorized = None \<rparr>, s2))"

definition debugCapture :: "env \<Rightarrow> message option \<Rightarrow> nat option \<Rightarrow> server \<Rightarrow> emitted list \<times> server" where
  \<comment> \<open>the handler from its start to where it first waits: \<open>processDataUrl\<close> and
      \<open>vectorizeImage\<close> are entered in the same turn and run up to the call of the
      engine, whose promise is awaited; a handler that does not reach the engine runs to
      its end.  A null message makes \<open>data.timestamp\<close> throw a TypeError, whose
      message is shortened here; the date that prefixes some lines of the error log is
      left out.\<close>
  "debugCapture e data callback s =
     (case data of
        None \<Rightarrow>
          (let msg = ''Cannot read properties of null'';
               s1 = consoleError (''Error processing debug capture: '' @ msg) s
           in case callback of
                None \<Rightarrow> ([], s1)
              | Some cb \<Rightarrow> ([Callback cb \<lparr> ack_success = False, ack_id = None,
                     ack_processedAt = None, ack_svg = None, ack_stats = None,
                     ack_mcpRequestCount = None, ack_mcpRequestWithoutSvgCount = None,
                     ack_error = Some msg \<rparr>], s1))
      | Some d \<Rightarrow>
          (let (cap, s2) = createCapture e d s
           in case msg_image d of
                None \<Rightarrow> publish e cap callback s2
              | Some dataUrl \<Rightarrow>
                  if dataUrl = [] then publish e cap callback s2
                  else
                    (let (processingStart, s3) = dateNowTick e s2
                     in case processDataUrl_start e dataUrl s3 of
                          (Inl imageResult, s4) \<Rightarrow> withImageResult e cap callback imageResult s4
                        | (Inr (ty, imageBuffer, cfg, vectorizeStart), s4) \<Rightarrow>
                            ([], s4\<lparr> pending := pending s4 @
                                   [\<lparr> j_capture = cap, j_callback = callback, j_imageType = ty,
                                      j_buffer = imageBuffer, j_config = cfg,
                                      j_vectorizeStart = vectorizeStart \<rparr>] \<rparr>))))"

definition engineSettled :: "env \<Rightarrow> nat \<Rightarrow> server \<Rightarrow> emitted list \<times> server" where
  \<comment> \<open>the engine has finished the image of the waiting handler number \<open>k\<close>: the rest
      of \<open>vectorizeImage\<close>, of \<open>processDataUrl\<close> and of the handler\<close>
  "engineSettled e k s =
     (if k < length (pending s) then
        (let j = pending s ! k;
             s0 = s\<lparr> pending := take k (pending s) @ drop (Suc k) (pending s) \<rparr>;
             (imageResult, s1) =
                processDataUrl_resume e (j_imageType j) (j_vectorizeStart j)
                  (vectorize e (j_buffer j) (j_config j)) s0
         in withImageResult e (j_capture j) (j_callback j) imageResult s1)
      else ([], s))"

subsection \<open>Answering a query\<close>

definition validTime :: "int \<Rightarrow> bool" where
  \<comment> \<open>the time values a \<open>Date\<close> holds; \<open>toISOString\<close> throws a RangeError on any other\<close>
  "validTime t = (\<bar>t\<bar> \<le> 8640000000000000)"

definition isoString :: "env \<Rightarrow> int \<Rightarrow> string + string" where
  "isoString e t = (if validTime t then Inr (toISOString e t) else Inl ''Invalid time value'')"

definition formatEntry :: "env \<Rightarrow> log_entry \<Rightarrow> string + (string \<times> string)" where
  \<comment> \<open>\<open>{ time: new Date(log.timestamp).toISOString(), message: log.data.join(' ') }\<close>\<close>
  "formatEntry e l = (case isoString e (le_timestamp l) of
       Inl m \<Rightarrow> Inl m
     | Inr time \<Rightarrow> Inr (time, joinWith '' '' (map toStr (le_data l))))"

fun formatEntries :: "env \<Rightarrow> log_entry list \<Rightarrow> string + (string \<times> string) list" where
  "formatEntries e [] = Inr []"
| "formatEntries e (l # ls) = (case formatEntry e l of
       Inl m \<Rightarrow> Inl m
     | Inr x \<Rightarrow> (case formatEntries e ls of Inl m \<Rightarrow> Inl m | Inr xs \<Rightarrow> Inr (x # xs)))"

definition entryLine :: "string \<times> string \<Rightarrow> string" where
  "entryLine x = ''['' @ fst x @ ''] '' @ snd x"

definition textContent :: "env \<Rightarrow> capture \<Rightarrow> string + string" where
  "textContent e cap =
     (case formatEntries e (console_logs cap) of
        Inl m \<Rightarrow> Inl m
      | Inr consoleLogs \<Rightarrow>
     (case formatEntries e (console_errors cap) of
        Inl m \<Rightarrow> Inl m
      | Inr errs \<Rightarrow>
     (case isoString e (timestamp cap) of
        Inl m \<Rightarrow> Inl m
      | Inr time \<Rightarrow>
          Inr (newline @ ''Game State: '' @ cap_id cap @ '' ('' @ time @ '')'' @ newline
             @ newline
             @ ''Console Logs:'' @ newline
             @ joinWith newline (map entryLine consoleLogs) @ newline
             @ newline
             @ (if errs \<noteq> [] then ''Errors:'' @ newline @ joinWith newline (map entryLine errs)
                else ''No errors.'') @ newline
             @ (case unhandled_exception cap of
                  None \<Rightarrow> []
                | Some ex \<Rightarrow> newline @ ''Unhandled Exception:'' @ newline @ stringify e ex)
             @ newline
             @ newline))))"

definition svgBlock :: "string \<Rightarrow> string" where
  "svgBlock doc = newline @ ''SVG Approximation:'' @ newline @ ''```svg'' @ newline @ doc
     @ newline @ ''```''"

definition deleteSvg :: "capture \<Rightarrow> capture" where
  \<comment> \<open>\<open>delete capture.vectorized.svg\<close>\<close>
  "deleteSvg cap = (case vectorized cap of
       None \<Rightarrow> cap
     | Some v \<Rightarrow> cap\<lparr> vectorized := Some (v\<lparr> svg := None \<rparr>) \<rparr>)"

definition getGameDebugInfoWithLogsAndVisualization ::
  "env \<Rightarrow> bool \<Rightarrow> server \<Rightarrow> (string + tool_result) \<times> server" where
  \<comment> \<open>the tool; \<open>capture\<close> is the object \<open>latestCapture\<close> refers to, so what is deleted
      from it is deleted from the retained record.  \<open>Inl\<close> is an exception thrown to
      the protocol framework.\<close>
  "getGameDebugInfoWithLogsAndVisualization e includeSvg s =
     (let s1 = s\<lparr> mcpRequestCount := mcpRequestCount s + 1 \<rparr>;
          s2 = (if \<not> includeSvg
                then s1\<lparr> mcpRequestWithoutSvgCount := mcpRequestWithoutSvgCount s1 + 1 \<rparr>
                else s1)
      in case latestCapture s2 of
           None \<Rightarrow> (Inr \<lparr> tr_success = False, tr_content =
                       [\<lparr> item_type = ''text'', item_text = ''No game data available yet.'' \<rparr>] \<rparr>,
                    s2)
         | Some cap0 \<Rightarrow>
             (let cap = (if \<not> includeSvg then deleteSvg cap0 else cap0);
                  s3 = s2\<lparr> latestCapture := Some cap \<rparr>
              in case textContent e cap of
                   Inl m \<Rightarrow> (Inl m, s3)
                 | Inr text \<Rightarrow>
                     (let text' = (case vectorized cap of
                                     None \<Rightarrow> text
                                   | Some v \<Rightarrow>
                                       (case svg v of
                                          None \<Rightarrow> text
                                        | Some doc \<Rightarrow>
                                            if doc \<noteq> [] \<and> includeSvg then text @ svgBlock doc
                                            else text))
                      in (Inr \<lparr> tr_success = True, tr_content =
                                 [\<lparr> item_type = ''text'', item_text = text' \<rparr>] \<rparr>, s3))))"

subsection \<open>The other readers\<close>

definition httpLatest :: "server \<Rightarrow> emitted" where
  \<comment> \<open>\<open>GET /latest\<close>\<close>
  "httpLatest s = (case latestCapture s of
       Some cap \<Rightarrow> HttpJson cap
     | None \<Rightarrow> HttpNotFound ''No captures available yet'')"

definition getLatestCapture :: "nat \<Rightarrow> server \<Rightarrow> emitted" where
  "getLatestCapture cb s = (case latestCapture s of
       Some cap \<Rightarrow> LatestReply cb True (Some cap)
          (case vectorized cap of None \<Rightarrow> None | Some v \<Rightarrow> svg v)
          (case vectorized cap of None \<Rightarrow> None | Some v \<Rightarrow> stats v) None
     | None \<Rightarrow> LatestReply cb False None None None (Some ''No captures available yet''))"

definition connection :: "server \<Rightarrow> emitted list" where
  "connection s = (case latestCapture s of
       Some cap \<Rightarrow> [CaptureStatus True (timestamp cap)]
     | None \<Rightarrow> [])"

subsection \<open>The event loop\<close>

text \<open>
  One event is one turn of the loop: a handler runs from where it starts, or from where
  it waited, to where it waits next or ends.  The handler of \<open>debugCapture\<close> waits once,
  for the engine; the tool and the other readers do not wait.
\<close>

datatype event =
    DebugCapture "message option" "nat option"
  | EngineSettled nat
  | ToolCall "bool option"
  | GetLatest
  | GetLatestCapture nat
  | Connection

definition step :: "env \<Rightarrow> server \<Rightarrow> event \<Rightarrow> emitted list \<times> server" where
  "step e s ev = (case ev of
       DebugCapture data callback \<Rightarrow> debugCapture e data callback s
     | EngineSettled k \<Rightarrow> engineSettled e k s
     | ToolCall arg \<Rightarrow>
         (let (r, s') = getGameDebugInfoWithLogsAndVisualization e (orDefault arg True) s
          in ([ToolReturn r], s'))
     | GetLatest \<Rightarrow> ([httpLatest s], s)
     | GetLatestCapture cb \<Rightarrow> ([getLatestCapture cb s], s)
     | Connection \<Rightarrow> (connection s, s))"

fun run :: "env \<Rightarrow> server \<Rightarrow> event list \<Rightarrow> emitted list \<times> server" where
  "run e s [] = ([], s)"
| "run e s (ev # evs) =
     (let (out, s1) = step e s ev; (outs, s2) = run e s1 evs in (out @ outs, s2))"

definition submit :: "env \<Rightarrow> message \<Rightarrow> nat option \<Rightarrow> server \<Rightarrow> emitted list \<times> server" where
  \<comment> \<open>one message through its whole pipeline with nothing in between: the handler
      starts, and the engine, if it was called, settles the job just queued\<close>
  "submit e d callback s =
     run e s [DebugCapture (Some d) callback, EngineSettled (length (pending s))]"

fun noneWaitingAtArrival :: "env \<Rightarrow> server \<Rightarrow> event list \<Rightarrow> bool" where
  \<comment> \<open>every capture of the run arrives while no handler waits for the engine\<close>
  "noneWaitingAtArrival e s [] = True"
| "noneWaitingAtArrival e s (ev # evs) =
     ((case ev of DebugCapture data callback \<Rightarrow> pending s = [] | _ \<Rightarrow> True)
      \<and> noneWaitingAtArrival e (snd (step e s ev)) evs)"

subsection \<open>Inputs for the examples\<close>

definition exampleEnv :: env where
  "exampleEnv = \<lparr>
     vectorize = (\<lambda>buf cfg. if buf = ''bad'' then Inl ''engine failed''
                    else Inr (''<svg fill=#a7ff10 >'' @ buf @ ''</svg>'')),
     optimize = (\<lambda>doc cfg. if 30 < length doc then Inl ''too long''
                    else Inr (filter (\<lambda>c. c \<noteq> CHR '' '') doc)),
     fromBase64 = (\<lambda>s. s),
     dateNow = (\<lambda>n. 1000 + int n),
     performanceNow = (\<lambda>n. rat_of_nat n * 5 / 2),
     toISOString = (\<lambda>t. ''T'' @ showInt t),
     stringify = ex_message \<rparr>"

definition exampleMessage :: message where
  "exampleMessage = \<lparr> msg_timestamp = Some 0, msg_image = Some ''data:image/png;base64,QQ'',
     msg_console_logs = Some [\<lparr> le_timestamp = 999, le_data = [LStr ''hello'', LNum 3] \<rparr>],
     msg_console_errors = None, msg_unhandled_exception = None \<rparr>"

definition exampleWaiting :: server where
  "exampleWaiting = snd (step exampleEnv initialServer (DebugCapture (Some exampleMessage) (Some 7)))"

definition exampleAck :: ack where
  "exampleAck = \<lparr> ack_success = True, ack_id = Some ''capture_1000'',
     ack_processedAt = Some 1003, ack_svg = Some ''<svgfill=#99FF00>QQ</svg>'',
     ack_stats = Some \<lparr> vectorizeTime = 5 / 2, optimizeTime = 5 / 2, originalSize = 27,
       finalSize = 25, sizeReduction = Some (200 / 27) \<rparr>,
     ack_mcpRequestCount = Some 0, ack_mcpRequestWithoutSvgCount = Some 0,
     ack_error = None \<rparr>"

definition sameMillisecondEnv :: env where
  "sameMillisecondEnv = exampleEnv\<lparr> dateNow := (\<lambda>n. 1000) \<rparr>"

definition logsOnly :: "string \<Rightarrow> message" where
  "logsOnly line = \<lparr> msg_timestamp = Some 5, msg_image = None,
     msg_console_logs = Some [\<lparr> le_timestamp = 4, le_data = [LStr line] \<rparr>],
     msg_console_errors = None, msg_unhandled_exception = None \<rparr>"

definition examplePublished :: server where
  "examplePublished =
     snd (run exampleEnv initialServer [DebugCapture (Some exampleMessage) (Some 7), EngineSettled 0])"

definition exampleNarrative :: string where
  "exampleNarrative = newline @ ''Game State: capture_1000 (T1001)'' @ newline @ newline
     @ ''Console Logs:'' @ newline @ ''[T999] hello 3'' @ newline @ newline
     @ ''No errors.'' @ newline @ newline @ newline"

definition exampleVectorized :: vectorized where
  "exampleVectorized = \<lparr> svg = Some ''<svgfill=#99FF00>QQ</svg>'', imageType = Some ''png'',
     stats = Some \<lparr> vectorizeTime = 5 / 2, optimizeTime = 5 / 2, originalSize = 27,
       finalSize = 25, sizeReduction = Some (200 / 27) \<rparr> \<rparr>"

definition exampleCapture :: capture where
  "exampleCapture = \<lparr> cap_id = ''capture_1000'', timestamp = 1001,
     console_logs = [\<lparr> le_timestamp = 999, le_data = [LStr ''hello'', LNum 3] \<rparr>],
     console_errors = [], unhandled_exception = None,
     vectorized = Some exampleVectorized \<rparr>"

definition badDatePublished :: server where
  "badDatePublished =
     snd (run exampleEnv initialServer
       [DebugCapture (Some (exampleMessage\<lparr> msg_timestamp := Some 8640000000000001 \<rparr>)) (Some 7),
        EngineSettled 0])"

section \<open>Notions used in the statements\<close>

text \<open>
  The six canonical levels of the specification; a pair of hex digits that is the level
  closest to a channel value; a pair that a single digit of the short form stands for;
  a document in which every colour the pattern finds is made of such pairs.
\<close>

definition canonicalLevels :: "nat list" where
  "canonicalLevels = [0, 51, 102, 153, 204, 255]"

definition short :: "string \<Rightarrow> bool" where
  "short p = (case p of [x, y] \<Rightarrow> x = y | _ \<Rightarrow> False)"

definition closestLevel :: "string \<Rightarrow> nat \<Rightarrow> bool" where
  "closestLevel p v = (case parseInt16 p of
       None \<Rightarrow> False
     | Some q \<Rightarrow> q \<in> set canonicalLevels
         \<and> list_all (\<lambda>l. l = q \<or> \<bar>int q - int v\<bar> < \<bar>int l - int v\<bar>) canonicalLevels)"

fun allShort :: "string \<Rightarrow> bool" where
  "allShort [] = True"
| "allShort (c # cs) =
     ((case hexColorMatch (c # cs) of
         Some (r, g, b) \<Rightarrow> short r \<and> short g \<and> short b
       | None \<Rightarrow> True) \<and> allShort cs)"

text \<open>The vector document of the retained record.\<close>

definition retainedSvg :: "server \<Rightarrow> string option" where
  "retainedSvg s = (case latestCapture s of
       None \<Rightarrow> None
     | Some c \<Rightarrow> (case vectorized c of None \<Rightarrow> None | Some v \<Rightarrow> svg v))"

text \<open>
  A message whose image reaches the engine: it is there, not empty, and matches the
  pattern of a data URL.
\<close>

definition reachesEngine :: "message \<Rightarrow> bool" where
  "reachesEngine d = (case msg_image d of
       None \<Rightarrow> False
     | Some u \<Rightarrow> u \<noteq> [] \<and> matchDataUrl u \<noteq> None)"

text \<open>
  What the conversion of the waiting handler number \<open>k\<close> returns once the engine has
  given the document \<open>doc\<close>.
\<close>

definition conversionResult :: "env \<Rightarrow> server \<Rightarrow> nat \<Rightarrow> string \<Rightarrow> vresult" where
  "conversionResult e s k doc =
     fst (vectorizeImage_resume e debugOptions (j_vectorizeStart (pending s ! k)) doc
            (s\<lparr> pending := take k (pending s) @ drop (Suc k) (pending s) \<rparr>))"

text \<open>
  A record all of whose timestamps, its own and those of its log and error entries, are
  time values of a valid date.
\<close>

definition datesValid :: "capture \<Rightarrow> bool" where
  "datesValid cap = (validTime (timestamp cap)
     \<and> list_all (\<lambda>l. validTime (le_timestamp l)) (console_logs cap)
     \<and> list_all (\<lambda>l. validTime (le_timestamp l)) (console_errors cap))"

text \<open>Two characters that are equal, or both hex digits.\<close>

definition sim :: "char \<Rightarrow> char \<Rightarrow> bool" where
  "sim x y = (x = y \<or> (isHexDigit x \<and> isHexDigit y))"

section \<open>Colour quantisation\<close>

lemma parseInt16_levels:
  "parseInt16 ''00'' = Some 0" "parseInt16 ''33'' = Some 51" "parseInt16 ''66'' = Some 102"
  "parseInt16 ''99'' = Some 153" "parseInt16 ''CC'' = Some 204" "parseInt16 ''FF'' = Some 255"
  by (simp_all add: parseInt16_def isHexDigit_def hexVal_def code_def)

lemma roundHexComponent_cases:
  "roundHexComponent p \<in> {''00'', ''33'', ''66'', ''99'', ''CC'', ''FF''}"
  by (simp add: roundHexComponent_def split: option.split)

lemma roundHexComponent_shape:
  "\<exists>d. roundHexComponent p = [d, d] \<and> isHexDigit d"
  using roundHexComponent_cases [of p]
  by (auto simp: isHexDigit_def code_def)

lemma hexColorMatch_head: "c \<noteq> CHR ''#'' \<Longrightarrow> hexColorMatch (c # cs) = None"
  by (cases "c # cs" rule: hexColorMatch.cases) auto

lemma isHexDigit_not_hash: "isHexDigit d \<Longrightarrow> d \<noteq> CHR ''#''"
  by (auto simp: isHexDigit_def code_def)

lemma allShort_skip: "isHexDigit d \<Longrightarrow> allShort (d # cs) = allShort cs"
  by (simp add: hexColorMatch_head isHexDigit_not_hash)

lemma allShort_rounded:
  assumes "allShort t"
  shows "allShort (CHR ''#'' # roundHexComponent r @ roundHexComponent g @ roundHexComponent b @ t)"
proof -
  obtain x where x: "roundHexComponent r = [x, x]" "isHexDigit x"
    using roundHexComponent_shape by blast
  obtain y where y: "roundHexComponent g = [y, y]" "isHexDigit y"
    using roundHexComponent_shape by blast
  obtain z where z: "roundHexComponent b = [z, z]" "isHexDigit z"
    using roundHexComponent_shape by blast
  have tl: "allShort (x # x # y # y # z # z # t)"
    using assms x(2) y(2) z(2) by (simp only: allShort_skip)
  have hd: "(case hexColorMatch (CHR ''#'' # x # x # y # y # z # z # t) of
         Some (r, g, b) \<Rightarrow> short r \<and> short g \<and> short b | None \<Rightarrow> True)"
    by (simp add: short_def)
  show ?thesis
    unfolding x y z using hd tl by (simp del: hexColorMatch.simps)
qed

lemma hexColorMatch_SomeD:
  assumes "hexColorMatch s = Some (r, g, b)"
  shows "\<exists>r1 r2 g1 g2 b1 b2 rest.
           s = CHR ''#'' # r1 # r2 # g1 # g2 # b1 # b2 # rest
         \<and> r = [r1, r2] \<and> g = [g1, g2] \<and> b = [b1, b2]
         \<and> isHexDigit r1 \<and> isHexDigit r2 \<and> isHexDigit g1 \<and> isHexDigit g2
         \<and> isHexDigit b1 \<and> isHexDigit b2
         \<and> (case rest of [] \<Rightarrow> True | c # _ \<Rightarrow> \<not> isWordChar c)"
  using assms by (cases s rule: hexColorMatch.cases) (auto split: if_splits)

lemma isHexDigit_word: "isHexDigit c \<Longrightarrow> isWordChar c"
  by (auto simp: isHexDigit_def isWordChar_def isAlpha_def)

lemma sim_hash: "sim x (CHR ''#'') \<Longrightarrow> x = CHR ''#''"
  by (auto simp: sim_def dest: isHexDigit_not_hash)

lemma sim_hex: "sim x y \<Longrightarrow> isHexDigit y \<Longrightarrow> isHexDigit x"
  by (auto simp: sim_def)

lemma sim_nonword: "sim x y \<Longrightarrow> \<not> isWordChar y \<Longrightarrow> \<not> isWordChar x"
  by (auto simp: sim_def dest: isHexDigit_word)

lemma sim_refl: "sim x x"
  by (simp add: sim_def)

lemma sim_hexI: "isHexDigit x \<Longrightarrow> isHexDigit y \<Longrightarrow> sim x y"
  by (simp add: sim_def)

lemma hexColorMatch_sim:
  assumes "list_all2 sim xs ys" and "hexColorMatch xs = None"
  shows "hexColorMatch ys = None"
proof (rule ccontr)
  assume "hexColorMatch ys \<noteq> None"
  then obtain r g b where "hexColorMatch ys = Some (r, g, b)" by auto
  from hexColorMatch_SomeD [OF this] obtain r1 r2 g1 g2 b1 b2 rest where
    ys: "ys = CHR ''#'' # r1 # r2 # g1 # g2 # b1 # b2 # rest"
    and hex: "isHexDigit r1" "isHexDigit r2" "isHexDigit g1" "isHexDigit g2"
       "isHexDigit b1" "isHexDigit b2"
    and bnd: "(case rest of [] \<Rightarrow> True | c # _ \<Rightarrow> \<not> isWordChar c)"
    by blast
  from assms(1) ys obtain x0 x1 x2 x3 x4 x5 x6 xrest where
    xs: "xs = x0 # x1 # x2 # x3 # x4 # x5 # x6 # xrest"
    and s: "sim x0 (CHR ''#'')" "sim x1 r1" "sim x2 r2" "sim x3 g1" "sim x4 g2"
       "sim x5 b1" "sim x6 b2"
    and r: "list_all2 sim xrest rest"
    by (auto simp: list_all2_Cons2)
  have b': "(case xrest of [] \<Rightarrow> True | c # _ \<Rightarrow> \<not> isWordChar c)"
    using r bnd by (cases xrest; cases rest) (auto dest: sim_nonword)
  have "hexColorMatch xs \<noteq> None"
    using xs s hex b' by (simp add: sim_hash sim_hex)
  with assms(2) show False by simp
qed

lemma sim_roundHexColors: "list_all2 sim s (roundHexColors s)"
proof (induction s rule: roundHexColors.induct)
  case 1
  then show ?case by simp
next
  case (2 c cs)
  show ?case
  proof (cases "hexColorMatch (c # cs)")
    case None
    then show ?thesis using 2(1) by (simp add: sim_refl)
  next
    case (Some m)
    obtain r g b where m: "m = (r, g, b)" by (cases m) auto
    from hexColorMatch_SomeD [OF Some [unfolded m]] obtain r1 r2 g1 g2 b1 b2 rest where
      s: "c # cs = CHR ''#'' # r1 # r2 # g1 # g2 # b1 # b2 # rest"
      and hex: "isHexDigit r1" "isHexDigit r2" "isHexDigit g1" "isHexDigit g2"
         "isHexDigit b1" "isHexDigit b2"
      by blast
    obtain x where x: "roundHexComponent r = [x, x]" "isHexDigit x"
      using roundHexComponent_shape by blast
    obtain y where y: "roundHexComponent g = [y, y]" "isHexDigit y"
      using roundHexComponent_shape by blast
    obtain z where z: "roundHexComponent b = [z, z]" "isHexDigit z"
      using roundHexComponent_shape by blast
    have ih: "list_all2 sim rest (roundHexColors rest)"
      using 2(2) [OF Some m [symmetric] refl] s by simp
    have out: "roundHexColors (c # cs) = CHR ''#'' # x # x # y # y # z # z # roundHexColors rest"
      using Some m s x y z by simp
    show ?thesis
      unfolding out using s hex x(2) y(2) z(2) ih by (simp add: sim_refl sim_hexI)
  qed
qed

lemma allShort_roundHexColors: "allShort (roundHexColors s)"
proof (induction s rule: roundHexColors.induct)
  case 1
  then show ?case by simp
next
  case (2 c cs)
  show ?case
  proof (cases "hexColorMatch (c # cs)")
    case None
    have "hexColorMatch (c # roundHexColors cs) = None"
      using hexColorMatch_sim [of "c # cs" "c # roundHexColors cs"] None sim_roundHexColors [of cs]
      by (simp add: sim_refl)
    then show ?thesis
      using None 2(1) by simp
  next
    case (Some m)
    obtain r g b where m: "m = (r, g, b)" by (cases m) auto
    have "allShort (roundHexColors (drop 6 cs))"
      using 2(2) Some m by simp
    then show ?thesis
      using Some m allShort_rounded by (simp del: allShort.simps)
  qed
qed

lemma roundHexComponent_closest:
  assumes "parseInt16 hexPair = Some v" and "v \<le> 255"
  shows "closestLevel (roundHexComponent hexPair) v"
proof -
  consider "v < 26" | "26 \<le> v" "v < 77" | "77 \<le> v" "v < 128" | "128 \<le> v" "v < 179"
    | "179 \<le> v" "v < 230" | "230 \<le> v"
    by linarith
  then show ?thesis
  proof cases
    case 1
    then show ?thesis
      using assms
      by (simp add: roundHexComponent_def closestLevel_def parseInt16_levels canonicalLevels_def;
          arith)
  next
    case 2
    then show ?thesis
      using assms
      by (simp add: roundHexComponent_def closestLevel_def parseInt16_levels canonicalLevels_def;
          arith)
  next
    case 3
    then show ?thesis
      using assms
      by (simp add: roundHexComponent_def closestLevel_def parseInt16_levels canonicalLevels_def;
          arith)
  next
    case 4
    then show ?thesis
      using assms
      by (simp add: roundHexComponent_def closestLevel_def parseInt16_levels canonicalLevels_def;
          arith)
  next
    case 5
    then show ?thesis
      using assms
      by (simp add: roundHexComponent_def closestLevel_def parseInt16_levels canonicalLevels_def;
          arith)
  next
    case 6
    then show ?thesis
      using assms
      by (simp add: roundHexComponent_def closestLevel_def parseInt16_levels canonicalLevels_def;
          arith)
  qed
qed

lemma parseInt16_pair:
  assumes "isHexDigit a" and "isHexDigit b"
  shows "parseInt16 [a, b] = Some (16 * hexVal a + hexVal b)"
  using assms by (simp add: parseInt16_def)

lemma hexVal_digit: "isHexDigit a \<Longrightarrow> hexVal a < 16"
  by (auto simp: isHexDigit_def hexVal_def)

text \<open>
  Claim C8.  The quantisation of a colour channel returns the canonical level closest to
  the channel value: for every pair of hex digits, read as a value \<open>v\<close> from 0 to 255,
  \<open>roundHexComponent\<close> gives the member of 0, 51, 102, 153, 204, 255 that is strictly
  closer to \<open>v\<close> than every other member, written as a doubled digit; and in the
  document \<open>roundHexColors\<close> returns, every 6-digit colour the pattern finds is made of
  doubled digits, so it has a 3-digit short form.
\<close>

theorem quantize_nearest:
  "(\<forall>hexPair v. parseInt16 hexPair = Some v \<longrightarrow> v \<le> 255 \<longrightarrow>
       closestLevel (roundHexComponent hexPair) v \<and> short (roundHexComponent hexPair))
   \<and> (\<forall>a b. isHexDigit a \<longrightarrow> isHexDigit b \<longrightarrow>
       (\<exists>v \<le> 255. parseInt16 [a, b] = Some v))
   \<and> (\<forall>svg. allShort (roundHexColors svg))"
proof (intro conjI allI impI)
  fix hexPair v
  assume "parseInt16 hexPair = Some v" "v \<le> 255"
  then show "closestLevel (roundHexComponent hexPair) v"
    by (rule roundHexComponent_closest)
next
  fix hexPair :: string
  obtain d where "roundHexComponent hexPair = [d, d]"
    using roundHexComponent_shape by blast
  then show "short (roundHexComponent hexPair)"
    by (simp add: short_def)
next
  fix a b
  assume "isHexDigit a" "isHexDigit b"
  then show "\<exists>v \<le> 255. parseInt16 [a, b] = Some v"
    using hexVal_digit [of a] hexVal_digit [of b] by (simp add: parseInt16_pair)
next
  fix svg
  show "allShort (roundHexColors svg)"
    by (rule allShort_roundHexColors)
qed

theorem quantize_nearest_witness:
  "parseInt16 ''a7'' = Some 167 \<and> (167::nat) \<le> 255
   \<and> closestLevel (roundHexComponent ''a7'') 167 \<and> roundHexComponent ''a7'' = ''99''
   \<and> isHexDigit (CHR ''1'') \<and> isHexDigit (CHR ''A'') \<and> parseInt16 ''1A'' = Some 26
   \<and> roundHexColors ''fill=#a7ff10 x=#19191A;#12345678'' = ''fill=#99FF00 x=#000033;#12345678''
   \<and> allShort (roundHexColors ''fill=#a7ff10 x=#19191A;#12345678'')"
proof -
  have p: "parseInt16 ''a7'' = Some 167"
    by (simp add: parseInt16_def isHexDigit_def hexVal_def code_def)
  have q: "parseInt16 ''1A'' = Some 26" "isHexDigit (CHR ''1'')" "isHexDigit (CHR ''A'')"
    by (simp_all add: parseInt16_def isHexDigit_def hexVal_def code_def)
  have r: "roundHexComponent ''a7'' = ''99''"
    by (simp add: roundHexComponent_def p)
  have d: "roundHexColors ''fill=#a7ff10 x=#19191A;#12345678'' = ''fill=#99FF00 x=#000033;#12345678''"
    by code_simp
  from quantize_nearest have "closestLevel (roundHexComponent ''a7'') 167"
    using p by simp
  moreover from quantize_nearest have "allShort (roundHexColors ''fill=#a7ff10 x=#19191A;#12345678'')"
    by blast
  ultimately show ?thesis using p q r d by simp
qed

section \<open>The conversion operation\<close>

lemma resume_sizes:
  "originalSize (vr_stats (fst (vectorizeImage_resume e opts t0 raw w))) = length raw"
  "finalSize (vr_stats (fst (vectorizeImage_resume e opts t0 raw w)))
     = length (vr_svg (fst (vectorizeImage_resume e opts t0 raw w)))"
  "sizeReduction (vr_stats (fst (vectorizeImage_resume e opts t0 raw w)))
     = reduction (length (vr_svg (fst (vectorizeImage_resume e opts t0 raw w)))) (length raw)"
  by (simp_all add: vectorizeImage_resume_def Let_def split: prod.splits)

lemma vectorizeImage_Inr:
  assumes "vectorize e buf (mkConfig opts) = Inr raw"
  shows "fst (vectorizeImage e buf opts w)
     = Inr (fst (vectorizeImage_resume e opts (performanceNow e (perfTicks w)) raw
                   (w\<lparr> perfTicks := Suc (perfTicks w) \<rparr>)))"
  using assms
  by (simp add: vectorizeImage_def vectorizeImage_start_def perfNow_def Let_def split: prod.splits)

lemma vectorizeImage_Inl:
  assumes "vectorize e buf (mkConfig opts) = Inl msg"
  shows "fst (vectorizeImage e buf opts w) = Inl msg"
  using assms
  by (simp add: vectorizeImage_def vectorizeImage_start_def perfNow_def Let_def split: prod.splits)

lemma runOptimizer_failure:
  assumes "optimize e (if opt_shortHex opts \<noteq> Some False then roundHexColors raw else raw)
             (getSvgoConfig (opt_shortHex opts \<noteq> Some False)) = Inl msg"
  shows "\<exists>w'. runOptimizer e opts raw w = ((raw, 0), w')"
  using assms by (simp add: runOptimizer_def Let_def split: prod.splits)

lemma resume_optimizer_failure:
  assumes "optimize e (if opt_shortHex opts \<noteq> Some False then roundHexColors raw else raw)
             (getSvgoConfig (opt_shortHex opts \<noteq> Some False)) = Inl msg"
  shows "vr_svg (fst (vectorizeImage_resume e opts t0 raw w)) = raw"
    and "optimizeTime (vr_stats (fst (vectorizeImage_resume e opts t0 raw w))) = 0"
proof -
  obtain w' where "runOptimizer e opts raw (w\<lparr> perfTicks := Suc (perfTicks w) \<rparr>) = ((raw, 0), w')"
    using runOptimizer_failure [OF assms] by blast
  then show "vr_svg (fst (vectorizeImage_resume e opts t0 raw w)) = raw"
    and "optimizeTime (vr_stats (fst (vectorizeImage_resume e opts t0 raw w))) = 0"
    by (simp_all add: vectorizeImage_resume_def Let_def perfNow_def)
qed

text \<open>
  Claim C6.  When the size optimiser throws, the conversion still succeeds and returns
  the document of the raw conversion: whenever the engine gives a document \<open>raw\<close> and
  the optimiser throws on what it is handed, \<open>vectorizeImage\<close> returns a result, not an
  error, and the result carries \<open>raw\<close> itself, with the final size the length of \<open>raw\<close>
  and the optimisation time 0.
\<close>

theorem optimizer_failure_not_fatal:
  assumes "vectorize e buf (mkConfig opts) = Inr raw"
    and "optimize e (if opt_shortHex opts \<noteq> Some False then roundHexColors raw else raw)
           (getSvgoConfig (opt_shortHex opts \<noteq> Some False)) = Inl msg"
  shows "\<exists>r. fst (vectorizeImage e buf opts w) = Inr r \<and> vr_svg r = raw
           \<and> finalSize (vr_stats r) = length raw \<and> optimizeTime (vr_stats r) = 0"
  using vectorizeImage_Inr [OF assms(1)] resume_optimizer_failure [OF assms(2)] resume_sizes(2)
  by (metis (no_types, lifting))

text \<open>
  Claim C7.  The size reduction reported with a conversion result is
  \<open>100 * (1 - finalSize / originalSize)\<close>, where the two sizes are the lengths of the
  document before and after optimisation, on every path (optimisation applied, disabled
  or failed): for any options and any behaviour of the optimiser, whenever the engine
  gives a non-empty document.  The arithmetic is exact, over the rationals.
\<close>

theorem size_reduction_formula:
  assumes "vectorize e buf (mkConfig opts) = Inr raw" and "raw \<noteq> []"
  shows "\<exists>r. fst (vectorizeImage e buf opts w) = Inr r
           \<and> originalSize (vr_stats r) = length raw
           \<and> finalSize (vr_stats r) = length (vr_svg r)
           \<and> sizeReduction (vr_stats r)
               = Some (100 * (1 - rat_of_nat (finalSize (vr_stats r))
                                   / rat_of_nat (originalSize (vr_stats r))))"
proof -
  let ?r = "fst (vectorizeImage_resume e opts (performanceNow e (perfTicks w)) raw
                   (w\<lparr> perfTicks := Suc (perfTicks w) \<rparr>))"
  have "fst (vectorizeImage e buf opts w) = Inr ?r"
    by (rule vectorizeImage_Inr [OF assms(1)])
  moreover have "originalSize (vr_stats ?r) = length raw"
    and "finalSize (vr_stats ?r) = length (vr_svg ?r)"
    by (rule resume_sizes)+
  moreover have "sizeReduction (vr_stats ?r)
      = Some (100 * (1 - rat_of_nat (length (vr_svg ?r)) / rat_of_nat (length raw)))"
    using assms(2) by (simp add: resume_sizes(3) reduction_def algebra_simps)
  ultimately show ?thesis by simp
qed

theorem optimizer_failure_not_fatal_witness:
  "vectorize exampleEnv ''QQQQQQQQQQQQ'' (mkConfig noOptions)
     = Inr ''<svg fill=#a7ff10 >QQQQQQQQQQQQ</svg>''
   \<and> optimize exampleEnv (roundHexColors ''<svg fill=#a7ff10 >QQQQQQQQQQQQ</svg>'')
       (getSvgoConfig True) = Inl ''too long''
   \<and> (\<exists>r. fst (vectorizeImage exampleEnv ''QQQQQQQQQQQQ'' noOptions initialServer) = Inr r
         \<and> vr_svg r = ''<svg fill=#a7ff10 >QQQQQQQQQQQQ</svg>''
         \<and> finalSize (vr_stats r) = length ''<svg fill=#a7ff10 >QQQQQQQQQQQQ</svg>'' \<and> optimizeTime (vr_stats r) = 0)"
proof -
  have h1: "vectorize exampleEnv ''QQQQQQQQQQQQ'' (mkConfig noOptions)
      = Inr ''<svg fill=#a7ff10 >QQQQQQQQQQQQ</svg>''"
    by (simp add: exampleEnv_def)
  have h2: "optimize exampleEnv
      (if opt_shortHex noOptions \<noteq> Some False
       then roundHexColors ''<svg fill=#a7ff10 >QQQQQQQQQQQQ</svg>''
       else ''<svg fill=#a7ff10 >QQQQQQQQQQQQ</svg>'')
      (getSvgoConfig (opt_shortHex noOptions \<noteq> Some False)) = Inl ''too long''"
    by code_simp
  have h3: "optimize exampleEnv (roundHexColors ''<svg fill=#a7ff10 >QQQQQQQQQQQQ</svg>'')
       (getSvgoConfig True) = Inl ''too long''"
    by code_simp
  show ?thesis
  proof (intro conjI)
    show "vectorize exampleEnv ''QQQQQQQQQQQQ'' (mkConfig noOptions)
        = Inr ''<svg fill=#a7ff10 >QQQQQQQQQQQQ</svg>''"
      by (rule h1)
    show "optimize exampleEnv (roundHexColors ''<svg fill=#a7ff10 >QQQQQQQQQQQQ</svg>'')
        (getSvgoConfig True) = Inl ''too long''"
      by (rule h3)
    show "\<exists>r. fst (vectorizeImage exampleEnv ''QQQQQQQQQQQQ'' noOptions initialServer) = Inr r
         \<and> vr_svg r = ''<svg fill=#a7ff10 >QQQQQQQQQQQQ</svg>''
         \<and> finalSize (vr_stats r) = length ''<svg fill=#a7ff10 >QQQQQQQQQQQQ</svg>''
         \<and> optimizeTime (vr_stats r) = 0"
      by (rule optimizer_failure_not_fatal [OF h1 h2])
  qed
qed

theorem size_reduction_formula_witness:
  "vectorize exampleEnv ''QQ'' (mkConfig noOptions) = Inr ''<svg fill=#a7ff10 >QQ</svg>''
   \<and> ''<svg fill=#a7ff10 >QQ</svg>'' \<noteq> []
   \<and> (\<exists>r. fst (vectorizeImage exampleEnv ''QQ'' noOptions initialServer) = Inr r
         \<and> originalSize (vr_stats r) = length ''<svg fill=#a7ff10 >QQ</svg>''
         \<and> finalSize (vr_stats r) = length (vr_svg r)
         \<and> sizeReduction (vr_stats r)
             = Some (100 * (1 - rat_of_nat (finalSize (vr_stats r))
                                 / rat_of_nat (originalSize (vr_stats r)))))"
proof -
  have h1: "vectorize exampleEnv ''QQ'' (mkConfig noOptions) = Inr ''<svg fill=#a7ff10 >QQ</svg>''"
    by (simp add: exampleEnv_def)
  have h2: "''<svg fill=#a7ff10 >QQ</svg>'' \<noteq> []"
    by simp
  show ?thesis
  proof (intro conjI)
    show "vectorize exampleEnv ''QQ'' (mkConfig noOptions) = Inr ''<svg fill=#a7ff10 >QQ</svg>''"
      by (rule h1)
    show "''<svg fill=#a7ff10 >QQ</svg>'' \<noteq> []"
      by (rule h2)
    show "\<exists>r. fst (vectorizeImage exampleEnv ''QQ'' noOptions initialServer) = Inr r
         \<and> originalSize (vr_stats r) = length ''<svg fill=#a7ff10 >QQ</svg>''
         \<and> finalSize (vr_stats r) = length (vr_svg r)
         \<and> sizeReduction (vr_stats r)
             = Some (100 * (1 - rat_of_nat (finalSize (vr_stats r))
                                 / rat_of_nat (originalSize (vr_stats r))))"
      by (rule size_reduction_formula [OF h1 h2])
  qed
qed

section \<open>The capture coordinator\<close>

lemma publish_state:
  "latestCapture (snd (publish e cap cb s)) = Some cap"
  "pending (snd (publish e cap cb s)) = pending s"
  by (simp_all add: publish_def dateNowTick_def Let_def split: option.splits prod.splits)

lemma publish_none: "fst (publish e cap None s) = []"
  by (simp add: publish_def)

lemma publish_ack:
  "\<exists>a. fst (publish e cap (Some cb) s) = [Callback cb a] \<and> ack_success a
       \<and> ack_id a = Some (cap_id cap)
       \<and> ack_svg a = (case vectorized cap of None \<Rightarrow> None | Some v \<Rightarrow> svg v)
       \<and> ack_stats a = (case vectorized cap of None \<Rightarrow> None | Some v \<Rightarrow> stats v)
       \<and> ack_error a = None"
  by (simp add: publish_def dateNowTick_def Let_def split: prod.splits)

lemma publish_emitted:
  assumes "Callback cb a \<in> set (fst (publish e cap cbo s))"
  shows "cbo = Some cb \<and> ack_success a \<and> ack_id a = Some (cap_id cap)
       \<and> ack_svg a = (case vectorized cap of None \<Rightarrow> None | Some v \<Rightarrow> svg v)
       \<and> ack_stats a = (case vectorized cap of None \<Rightarrow> None | Some v \<Rightarrow> stats v)
       \<and> ack_error a = None"
proof (cases cbo)
  case None
  with assms show ?thesis by (simp add: publish_none)
next
  case (Some cb')
  obtain a' where a': "fst (publish e cap (Some cb') s) = [Callback cb' a']" "ack_success a'"
     "ack_id a' = Some (cap_id cap)"
     "ack_svg a' = (case vectorized cap of None \<Rightarrow> None | Some v \<Rightarrow> svg v)"
     "ack_stats a' = (case vectorized cap of None \<Rightarrow> None | Some v \<Rightarrow> stats v)"
     "ack_error a' = None"
    using publish_ack by blast
  with assms Some show ?thesis by simp
qed

lemma createCapture_fields:
  "cap_id (fst (createCapture e d s)) = ''capture_'' @ showInt (dateNow e (dateTicks s))"
  "timestamp (fst (createCapture e d s)) =
     (case msg_timestamp d of None \<Rightarrow> dateNow e (Suc (dateTicks s))
      | Some t \<Rightarrow> if t = 0 then dateNow e (Suc (dateTicks s)) else t)"
  "console_logs (fst (createCapture e d s)) = orDefault (msg_console_logs d) []"
  "console_errors (fst (createCapture e d s)) = orDefault (msg_console_errors d) []"
  "unhandled_exception (fst (createCapture e d s)) = msg_unhandled_exception d"
  "vectorized (fst (createCapture e d s)) = None"
  by (simp_all add: createCapture_def dateNowTick_def Let_def split: option.splits prod.splits)

lemma createCapture_state:
  "pending (snd (createCapture e d s)) = pending s"
  "latestCapture (snd (createCapture e d s)) = latestCapture s"
  by (simp_all add: createCapture_def dateNowTick_def Let_def split: option.splits prod.splits)

lemma resume_state:
  "pending (snd (vectorizeImage_resume e opts t0 doc s)) = pending s"
  "latestCapture (snd (vectorizeImage_resume e opts t0 doc s)) = latestCapture s"
  by (simp_all add: vectorizeImage_resume_def runOptimizer_def perfNow_def consoleError_def
        Let_def split: prod.splits sum.splits)

lemma withImageResult_failed:
  assumes "m \<noteq> []"
  shows "withImageResult e cap cb (errorResult m) s
     = publish e cap cb (consoleError (''Image processing failed: '' @ m) s)"
  using assms by (simp add: withImageResult_def errorResult_def)

lemma withImageResult_publishes:
  "\<exists>cap' s'. withImageResult e cap cb r s = publish e cap' cb s'
     \<and> cap'\<lparr> vectorized := None \<rparr> = cap\<lparr> vectorized := None \<rparr>
     \<and> pending s' = pending s"
proof -
  let ?stored = "cap\<lparr> vectorized := Some \<lparr> svg = ir_svg r, imageType = ir_imageType r,
                     stats = ir_stats r \<rparr> \<rparr>"
  consider (stored) "withImageResult e cap cb r s = publish e ?stored cb s"
    | (failed) m where "withImageResult e cap cb r s
          = publish e cap cb (consoleError (''Image processing failed: '' @ m) s)"
  proof (cases "ir_error r")
    case None
    then have "withImageResult e cap cb r s = publish e ?stored cb s"
      by (simp add: withImageResult_def Let_def)
    then show ?thesis by (rule stored)
  next
    case (Some m)
    show ?thesis
    proof (cases "m = []")
      case True
      with Some have "withImageResult e cap cb r s = publish e ?stored cb s"
        by (simp add: withImageResult_def Let_def)
      then show ?thesis by (rule stored)
    next
      case False
      with Some have "withImageResult e cap cb r s
          = publish e cap cb (consoleError (''Image processing failed: '' @ m) s)"
        by (simp add: withImageResult_def Let_def)
      then show ?thesis by (rule failed)
    qed
  qed
  then show ?thesis
  proof cases
    case stored
    moreover have "?stored\<lparr> vectorized := None \<rparr> = cap\<lparr> vectorized := None \<rparr>"
      by simp
    ultimately show ?thesis by blast
  next
    case (failed m)
    moreover have "pending (consoleError (''Image processing failed: '' @ m) s) = pending s"
      by (simp add: consoleError_def)
    ultimately show ?thesis by blast
  qed
qed

lemma processDataUrl_resume_state:
  "pending (snd (processDataUrl_resume e ty t0 settled s)) = pending s"
proof (cases settled)
  case (Inl m)
  then show ?thesis
    by (simp add: processDataUrl_resume_def consoleError_def)
next
  case (Inr doc)
  have "snd (processDataUrl_resume e ty t0 (Inr doc) s)
      = snd (vectorizeImage_resume e debugOptions t0 doc s)"
    by (simp add: processDataUrl_resume_def split: prod.splits)
  with Inr show ?thesis
    by (simp add: resume_state)
qed

text \<open>The three ways the handler's first turn ends.\<close>

lemma debugCapture_no_image:
  assumes "msg_image d = None \<or> msg_image d = Some []"
  shows "debugCapture e (Some d) cb s
     = publish e (fst (createCapture e d s)) cb (snd (createCapture e d s))"
  using assms by (auto simp add: debugCapture_def Let_def split: prod.splits)

lemma debugCapture_undecodable:
  assumes "msg_image d = Some u" "u \<noteq> []" "matchDataUrl u = None"
  shows "\<exists>s'. debugCapture e (Some d) cb s = publish e (fst (createCapture e d s)) cb s'
           \<and> pending s' = pending s
           \<and> ''Image processing failed: Invalid data URL format'' \<in> set (errors s')"
proof -
  obtain cap s2 where cc: "createCapture e d s = (cap, s2)"
    by (cases "createCapture e d s")
  have p: "pending s2 = pending s"
    using createCapture_state(1) [of e d s] cc by simp
  let ?s' = "s2\<lparr> dateTicks := Suc (dateTicks s2),
     errors := errors s2 @ [''Error processing data URL: Invalid data URL format'',
                            ''Image processing failed: Invalid data URL format''] \<rparr>"
  have "debugCapture e (Some d) cb s = publish e cap cb ?s'"
    using assms cc
    by (simp add: debugCapture_def Let_def dateNowTick_def processDataUrl_start_def
          withImageResult_def errorResult_def consoleError_def)
  moreover have "pending ?s' = pending s" using p by simp
  moreover have "''Image processing failed: Invalid data URL format'' \<in> set (errors ?s')"
    by simp
  ultimately show ?thesis using cc by (metis fst_conv)
qed

lemma debugCapture_queued:
  assumes "msg_image d = Some u" "u \<noteq> []" "matchDataUrl u = Some (ty, b64)"
  shows "\<exists>s' j. debugCapture e (Some d) cb s = ([], s'\<lparr> pending := pending s @ [j] \<rparr>)
           \<and> latestCapture s' = latestCapture s
           \<and> errors s' = errors s
           \<and> j_capture j = fst (createCapture e d s) \<and> j_callback j = cb
           \<and> j_imageType j = ty
           \<and> j_buffer j = fromBase64 e b64 \<and> j_config j = mkConfig debugOptions"
proof -
  obtain cap s2 where cc: "createCapture e d s = (cap, s2)"
    by (cases "createCapture e d s")
  have p: "pending s2 = pending s" "latestCapture s2 = latestCapture s"
    using createCapture_state [of e d s] cc by simp_all
  have er: "errors s2 = errors s"
    using cc by (auto simp add: createCapture_def dateNowTick_def Let_def split: option.splits if_splits)
  let ?s' = "s2\<lparr> dateTicks := Suc (dateTicks s2), perfTicks := Suc (perfTicks s2) \<rparr>"
  let ?j = "\<lparr> j_capture = cap, j_callback = cb, j_imageType = ty,
              j_buffer = fromBase64 e b64, j_config = mkConfig debugOptions,
              j_vectorizeStart = performanceNow e (perfTicks s2) \<rparr>"
  have "debugCapture e (Some d) cb s = ([], ?s'\<lparr> pending := pending s @ [?j] \<rparr>)"
    using assms cc p
    by (simp add: debugCapture_def Let_def dateNowTick_def processDataUrl_start_def
          vectorizeImage_start_def perfNow_def)
  moreover have "latestCapture ?s' = latestCapture s" "errors ?s' = errors s"
    using p er by simp_all
  moreover have "j_capture ?j = fst (createCapture e d s)" "j_callback ?j = cb"
    "j_imageType ?j = ty" "j_buffer ?j = fromBase64 e b64" "j_config ?j = mkConfig debugOptions"
    using cc by simp_all
  ultimately show ?thesis by blast
qed

lemma engineSettled_out_of_range:
  "\<not> k < length (pending s) \<Longrightarrow> engineSettled e k s = ([], s)"
  by (simp add: engineSettled_def)

lemma engineSettled_failure:
  assumes "k < length (pending s)"
    and "vectorize e (j_buffer (pending s ! k)) (j_config (pending s ! k)) = Inl m"
    and "m \<noteq> []"
  shows "\<exists>s'. engineSettled e k s
            = publish e (j_capture (pending s ! k)) (j_callback (pending s ! k)) s'
          \<and> pending s' = take k (pending s) @ drop (Suc k) (pending s)
          \<and> errors s' = errors s @ [''Error processing data URL: '' @ m,
                                    ''Image processing failed: '' @ m]"
proof -
  let ?s0 = "s\<lparr> pending := take k (pending s) @ drop (Suc k) (pending s) \<rparr>"
  let ?s' = "consoleError (''Image processing failed: '' @ m)
               (consoleError (''Error processing data URL: '' @ m) ?s0)"
  have "engineSettled e k s
      = publish e (j_capture (pending s ! k)) (j_callback (pending s ! k)) ?s'"
    using assms
    by (simp add: engineSettled_def Let_def processDataUrl_resume_def withImageResult_failed)
  moreover have "pending ?s' = take k (pending s) @ drop (Suc k) (pending s)"
    by (simp add: consoleError_def)
  moreover have "errors ?s' = errors s @ [''Error processing data URL: '' @ m,
                                    ''Image processing failed: '' @ m]"
    by (simp add: consoleError_def)
  ultimately show ?thesis by blast
qed

lemma engineSettled_success:
  assumes "k < length (pending s)"
    and "vectorize e (j_buffer (pending s ! k)) (j_config (pending s ! k)) = Inr doc"
  shows "\<exists>s' r. engineSettled e k s
            = publish e ((j_capture (pending s ! k))\<lparr> vectorized :=
                  Some \<lparr> svg = Some (vr_svg r), imageType = Some (j_imageType (pending s ! k)),
                         stats = Some (vr_stats r) \<rparr> \<rparr>) (j_callback (pending s ! k)) s'
          \<and> r = fst (vectorizeImage_resume e debugOptions (j_vectorizeStart (pending s ! k)) doc
                       (s\<lparr> pending := take k (pending s) @ drop (Suc k) (pending s) \<rparr>))
          \<and> pending s' = take k (pending s) @ drop (Suc k) (pending s)"
proof -
  let ?s0 = "s\<lparr> pending := take k (pending s) @ drop (Suc k) (pending s) \<rparr>"
  let ?rs = "vectorizeImage_resume e debugOptions (j_vectorizeStart (pending s ! k)) doc ?s0"
  have "engineSettled e k s
      = publish e ((j_capture (pending s ! k))\<lparr> vectorized :=
            Some \<lparr> svg = Some (vr_svg (fst ?rs)), imageType = Some (j_imageType (pending s ! k)),
                   stats = Some (vr_stats (fst ?rs)) \<rparr> \<rparr>) (j_callback (pending s ! k)) (snd ?rs)"
    using assms
    by (simp add: engineSettled_def Let_def processDataUrl_resume_def withImageResult_def
          split: prod.splits)
  moreover have "pending (snd ?rs) = take k (pending s) @ drop (Suc k) (pending s)"
    by (simp add: resume_state)
  ultimately show ?thesis by blast
qed

lemma engineSettled_publishes:
  assumes "k < length (pending s)"
  shows "\<exists>cap' s'. engineSettled e k s = publish e cap' (j_callback (pending s ! k)) s'
          \<and> cap'\<lparr> vectorized := None \<rparr> = (j_capture (pending s ! k))\<lparr> vectorized := None \<rparr>
          \<and> pending s' = take k (pending s) @ drop (Suc k) (pending s)"
proof -
  let ?j = "pending s ! k"
  let ?s0 = "s\<lparr> pending := take k (pending s) @ drop (Suc k) (pending s) \<rparr>"
  let ?p = "processDataUrl_resume e (j_imageType ?j) (j_vectorizeStart ?j)
              (vectorize e (j_buffer ?j) (j_config ?j)) ?s0"
  have es: "engineSettled e k s = withImageResult e (j_capture ?j) (j_callback ?j) (fst ?p) (snd ?p)"
    using assms by (simp add: engineSettled_def Let_def split: prod.splits)
  from withImageResult_publishes [of e "j_capture ?j" "j_callback ?j" "fst ?p" "snd ?p"]
  obtain cap' s' where
    "withImageResult e (j_capture ?j) (j_callback ?j) (fst ?p) (snd ?p)
       = publish e cap' (j_callback ?j) s'"
    "cap'\<lparr> vectorized := None \<rparr> = (j_capture ?j)\<lparr> vectorized := None \<rparr>"
    "pending s' = pending (snd ?p)"
    by blast
  moreover have "pending (snd ?p) = take k (pending s) @ drop (Suc k) (pending s)"
    by (simp add: processDataUrl_resume_state)
  ultimately show ?thesis using es by auto
qed

lemma submit_unfold:
  "submit e d cb s =
     (fst (debugCapture e (Some d) cb s)
        @ fst (engineSettled e (length (pending s)) (snd (debugCapture e (Some d) cb s))),
      snd (engineSettled e (length (pending s)) (snd (debugCapture e (Some d) cb s))))"
  by (simp add: submit_def step_def Let_def split: prod.splits)

lemma submit_direct:
  assumes "debugCapture e (Some d) cb s = publish e cap cb s'" and "pending s' = pending s"
  shows "submit e d cb s = publish e cap cb s'"
  using assms by (simp add: submit_unfold publish_state engineSettled_out_of_range)

lemma submit_queued:
  assumes "msg_image d = Some u" "u \<noteq> []" "matchDataUrl u = Some (ty, b64)"
  shows "\<exists>s1 j. submit e d cb s = engineSettled e (length (pending s)) s1
           \<and> pending s1 = pending s @ [j]
           \<and> errors s1 = errors s
           \<and> j_capture j = fst (createCapture e d s) \<and> j_callback j = cb
           \<and> j_imageType j = ty
           \<and> j_buffer j = fromBase64 e b64 \<and> j_config j = mkConfig debugOptions"
proof -
  from debugCapture_queued [OF assms, of e cb s] obtain s' j where
    dc: "debugCapture e (Some d) cb s = ([], s'\<lparr> pending := pending s @ [j] \<rparr>)"
    and e: "errors s' = errors s"
    and j: "j_capture j = fst (createCapture e d s)" "j_callback j = cb" "j_imageType j = ty"
      "j_buffer j = fromBase64 e b64" "j_config j = mkConfig debugOptions"
    by blast
  let ?s1 = "s'\<lparr> pending := pending s @ [j] \<rparr>"
  have "submit e d cb s = engineSettled e (length (pending s)) ?s1"
    by (simp add: submit_unfold dc)
  moreover have "pending ?s1 = pending s @ [j]" "errors ?s1 = errors s"
    using e by simp_all
  ultimately show ?thesis using j by blast
qed

lemma submit_publishes:
  "\<exists>cap' s'. submit e d cb s = publish e cap' cb s'
      \<and> cap'\<lparr> vectorized := None \<rparr> = fst (createCapture e d s)"
proof -
  have core: "(fst (createCapture e d s))\<lparr> vectorized := None \<rparr> = fst (createCapture e d s)"
    by (simp add: createCapture_def dateNowTick_def Let_def split: option.splits prod.splits)
  consider (none) "msg_image d = None \<or> msg_image d = Some []"
    | (bad) u where "msg_image d = Some u" "u \<noteq> []" "matchDataUrl u = None"
    | (ok) u ty b64 where "msg_image d = Some u" "u \<noteq> []" "matchDataUrl u = Some (ty, b64)"
    by (cases "msg_image d"; cases "matchDataUrl (the (msg_image d))") auto
  then show ?thesis
  proof cases
    case none
    have "submit e d cb s = publish e (fst (createCapture e d s)) cb (snd (createCapture e d s))"
      by (rule submit_direct [OF debugCapture_no_image [OF none]]) (rule createCapture_state)
    with core show ?thesis by blast
  next
    case bad
    from debugCapture_undecodable [OF bad, of e cb s] obtain s' where
      "debugCapture e (Some d) cb s = publish e (fst (createCapture e d s)) cb s'"
      "pending s' = pending s"
      by blast
    then have "submit e d cb s = publish e (fst (createCapture e d s)) cb s'"
      by (rule submit_direct)
    with core show ?thesis by blast
  next
    case ok
    from submit_queued [OF ok, of e cb s] obtain s1 j where
      sb: "submit e d cb s = engineSettled e (length (pending s)) s1"
      and p: "pending s1 = pending s @ [j]"
      and j: "j_capture j = fst (createCapture e d s)" "j_callback j = cb"
      by blast
    have k: "length (pending s) < length (pending s1)" "pending s1 ! length (pending s) = j"
      using p by simp_all
    from engineSettled_publishes [OF k(1), of e] obtain cap' s' where
      "engineSettled e (length (pending s)) s1 = publish e cap' cb s'"
      "cap'\<lparr> vectorized := None \<rparr> = (fst (createCapture e d s))\<lparr> vectorized := None \<rparr>"
      using k(2) j by auto
    with sb core show ?thesis by auto
  qed
qed

lemma submit_image_failure:
  assumes "msg_image d = Some u" and "u \<noteq> []"
    and "(matchDataUrl u = None \<and> m = ''Invalid data URL format'')
       \<or> (\<exists>ty b64. matchDataUrl u = Some (ty, b64)
            \<and> vectorize e (fromBase64 e b64) (mkConfig debugOptions) = Inl m \<and> m \<noteq> [])"
  shows "\<exists>s'. submit e d cb s = publish e (fst (createCapture e d s)) cb s'
      \<and> ''Image processing failed: '' @ m \<in> set (errors s')"
  using assms(3)
proof (elim disjE conjE exE)
  assume bad: "matchDataUrl u = None" and m: "m = ''Invalid data URL format''"
  from debugCapture_undecodable [OF assms(1,2) bad, of e cb s] obtain s' where
    s': "debugCapture e (Some d) cb s = publish e (fst (createCapture e d s)) cb s'"
    "pending s' = pending s"
    "''Image processing failed: Invalid data URL format'' \<in> set (errors s')"
    by blast
  have "submit e d cb s = publish e (fst (createCapture e d s)) cb s'"
    using s'(1,2) by (rule submit_direct)
  with s'(3) m show ?thesis by auto
next
  fix ty b64
  assume ok: "matchDataUrl u = Some (ty, b64)"
    and fl: "vectorize e (fromBase64 e b64) (mkConfig debugOptions) = Inl m" and ne: "m \<noteq> []"
  from submit_queued [OF assms(1,2) ok, of e cb s] obtain s1 j where
    sb: "submit e d cb s = engineSettled e (length (pending s)) s1"
    and p: "pending s1 = pending s @ [j]"
    and j: "j_capture j = fst (createCapture e d s)" "j_callback j = cb"
       "j_buffer j = fromBase64 e b64" "j_config j = mkConfig debugOptions"
    by blast
  have k: "length (pending s) < length (pending s1)" "pending s1 ! length (pending s) = j"
    using p by simp_all
  have "vectorize e (j_buffer (pending s1 ! length (pending s)))
          (j_config (pending s1 ! length (pending s))) = Inl m"
    using k(2) j fl by simp
  from engineSettled_failure [OF k(1) this ne] obtain s' where
    "engineSettled e (length (pending s)) s1 = publish e (fst (createCapture e d s)) cb s'"
    "errors s' = errors s1 @ [''Error processing data URL: '' @ m, ''Image processing failed: '' @ m]"
    using k(2) j by auto
  with sb show ?thesis by auto
qed

text \<open>
  Claim C10.  A timestamp that is missing, null or 0 counts as absent: the record
  published for such a message carries the coordinator's own clock reading, the second
  one the handler takes, and not the value 0; any other timestamp is echoed.  Missing
  \<open>console_logs\<close> and \<open>console_errors\<close> become empty sequences, and a missing
  \<open>unhandled_exception\<close> becomes null, in the published record.
\<close>

theorem falsy_fields_defaulted:
  "\<exists>c. latestCapture (snd (submit e d cb s)) = Some c
     \<and> (msg_timestamp d = None \<or> msg_timestamp d = Some 0
          \<longrightarrow> timestamp c = dateNow e (Suc (dateTicks s)))
     \<and> (\<forall>t. msg_timestamp d = Some t \<and> t \<noteq> 0 \<longrightarrow> timestamp c = t)
     \<and> (msg_console_logs d = None \<longrightarrow> console_logs c = [])
     \<and> (msg_console_errors d = None \<longrightarrow> console_errors c = [])
     \<and> (msg_unhandled_exception d = None \<longrightarrow> unhandled_exception c = None)"
proof -
  obtain cap' s' where sb: "submit e d cb s = publish e cap' cb s'"
    and core: "cap'\<lparr> vectorized := None \<rparr> = fst (createCapture e d s)"
    using submit_publishes by blast
  have l: "latestCapture (snd (submit e d cb s)) = Some cap'"
    by (simp add: sb publish_state)
  have "timestamp cap' = timestamp (cap'\<lparr> vectorized := None \<rparr>)"
    "console_logs cap' = console_logs (cap'\<lparr> vectorized := None \<rparr>)"
    "console_errors cap' = console_errors (cap'\<lparr> vectorized := None \<rparr>)"
    "unhandled_exception cap' = unhandled_exception (cap'\<lparr> vectorized := None \<rparr>)"
    by simp_all
  then have f: "timestamp cap' = (case msg_timestamp d of None \<Rightarrow> dateNow e (Suc (dateTicks s))
        | Some t \<Rightarrow> if t = 0 then dateNow e (Suc (dateTicks s)) else t)"
    "console_logs cap' = orDefault (msg_console_logs d) []"
    "console_errors cap' = orDefault (msg_console_errors d) []"
    "unhandled_exception cap' = msg_unhandled_exception d"
    unfolding core by (simp_all only: createCapture_fields)
  show ?thesis
    using l f by (auto simp add: orDefault_def)
qed

theorem falsy_fields_defaulted_witness:
  "msg_timestamp (exampleMessage\<lparr> msg_console_logs := None \<rparr>) = Some 0
   \<and> msg_console_logs (exampleMessage\<lparr> msg_console_logs := None \<rparr>) = None
   \<and> msg_console_errors (exampleMessage\<lparr> msg_console_logs := None \<rparr>) = None
   \<and> msg_unhandled_exception (exampleMessage\<lparr> msg_console_logs := None \<rparr>) = None
   \<and> (\<exists>c. latestCapture (snd (submit exampleEnv (exampleMessage\<lparr> msg_console_logs := None \<rparr>)
                                 (Some 7) initialServer)) = Some c
         \<and> timestamp c = 1001 \<and> console_logs c = [] \<and> console_errors c = []
         \<and> unhandled_exception c = None)"
proof -
  let ?m = "exampleMessage\<lparr> msg_console_logs := None \<rparr>"
  have m: "msg_timestamp ?m = Some 0" "msg_console_logs ?m = None" "msg_console_errors ?m = None"
    "msg_unhandled_exception ?m = None"
    by (simp_all add: exampleMessage_def)
  have t: "dateNow exampleEnv (Suc (dateTicks initialServer)) = 1001"
    by (simp add: exampleEnv_def initialServer_def)
  from falsy_fields_defaulted [of exampleEnv ?m "Some 7" initialServer]
  show ?thesis
    unfolding t using m by auto
qed

text \<open>
  Claim C4, as amended.  For a message whose image cannot be decoded, or whose conversion
  fails with a non-empty message, the coordinator still publishes a record with the logs,
  the errors and the exception of the message and without \<open>vectorized\<close>, and the
  acknowledgment reports success with the record's id, \<open>svg\<close> and \<open>stats\<close> null and no
  error: the failure is written to the error log, not to the acknowledgment.
\<close>

theorem image_failure_degrades:
  assumes "msg_image d = Some u" and "u \<noteq> []"
    and "(matchDataUrl u = None \<and> m = ''Invalid data URL format'')
       \<or> (\<exists>ty b64. matchDataUrl u = Some (ty, b64)
            \<and> vectorize e (fromBase64 e b64) (mkConfig debugOptions) = Inl m \<and> m \<noteq> [])"
  shows "\<exists>c a s'. submit e d (Some cb) s = ([Callback cb a], s') \<and> latestCapture s' = Some c
      \<and> console_logs c = orDefault (msg_console_logs d) []
      \<and> console_errors c = orDefault (msg_console_errors d) []
      \<and> unhandled_exception c = msg_unhandled_exception d
      \<and> vectorized c = None
      \<and> ack_success a \<and> ack_id a = Some (cap_id c)
      \<and> ack_svg a = None \<and> ack_stats a = None \<and> ack_error a = None
      \<and> ''Image processing failed: '' @ m \<in> set (errors s')"
proof -
  let ?c = "fst (createCapture e d s)"
  obtain s1 where sb: "submit e d (Some cb) s = publish e ?c (Some cb) s1"
    and er: "''Image processing failed: '' @ m \<in> set (errors s1)"
    using submit_image_failure [OF assms] by blast
  obtain a where a: "fst (publish e ?c (Some cb) s1) = [Callback cb a]" "ack_success a"
    "ack_id a = Some (cap_id ?c)"
    "ack_svg a = (case vectorized ?c of None \<Rightarrow> None | Some v \<Rightarrow> svg v)"
    "ack_stats a = (case vectorized ?c of None \<Rightarrow> None | Some v \<Rightarrow> stats v)"
    "ack_error a = None"
    using publish_ack by blast
  let ?s' = "snd (publish e ?c (Some cb) s1)"
  have e': "errors ?s' = errors s1"
    by (simp add: publish_def dateNowTick_def Let_def split: prod.splits)
  have "submit e d (Some cb) s = ([Callback cb a], ?s')"
    using sb a(1) by (metis prod.collapse)
  moreover have "latestCapture ?s' = Some ?c"
    by (rule publish_state)
  moreover have "ack_svg a = None" "ack_stats a = None"
    using a(4,5) by (simp_all add: createCapture_fields)
  ultimately show ?thesis
    using a(2,3,6) er e' createCapture_fields(3,4,5,6) [of e d s] by auto
qed

theorem image_failure_degrades_witness:
  "msg_image (exampleMessage\<lparr> msg_image := Some ''data:image/png;base64,bad'' \<rparr>)
      = Some ''data:image/png;base64,bad''
   \<and> ''data:image/png;base64,bad'' \<noteq> []
   \<and> matchDataUrl ''data:image/png;base64,bad'' = Some (''png'', ''bad'')
   \<and> vectorize exampleEnv (fromBase64 exampleEnv ''bad'') (mkConfig debugOptions)
       = Inl ''engine failed''
   \<and> ''engine failed'' \<noteq> []
   \<and> (\<exists>c a s'. submit exampleEnv (exampleMessage\<lparr> msg_image := Some ''data:image/png;base64,bad'' \<rparr>)
                   (Some 7) initialServer = ([Callback 7 a], s')
         \<and> latestCapture s' = Some c
         \<and> console_logs c = [\<lparr> le_timestamp = 999, le_data = [LStr ''hello'', LNum 3] \<rparr>]
         \<and> vectorized c = None
         \<and> ack_success a \<and> ack_svg a = None \<and> ack_stats a = None \<and> ack_error a = None
         \<and> ''Image processing failed: engine failed'' \<in> set (errors s'))"
proof -
  let ?m = "exampleMessage\<lparr> msg_image := Some ''data:image/png;base64,bad'' \<rparr>"
  have h1: "msg_image ?m = Some ''data:image/png;base64,bad''"
    by simp
  have h2: "''data:image/png;base64,bad'' \<noteq> []"
    by simp
  have h3: "matchDataUrl ''data:image/png;base64,bad'' = Some (''png'', ''bad'')"
    by code_simp
  have h4: "vectorize exampleEnv (fromBase64 exampleEnv ''bad'') (mkConfig debugOptions)
       = Inl ''engine failed''"
    by (simp add: exampleEnv_def)
  have h5: "''engine failed'' \<noteq> []"
    by simp
  have h: "(matchDataUrl ''data:image/png;base64,bad'' = None
         \<and> ''engine failed'' = ''Invalid data URL format'')
       \<or> (\<exists>ty b64. matchDataUrl ''data:image/png;base64,bad'' = Some (ty, b64)
            \<and> vectorize exampleEnv (fromBase64 exampleEnv b64) (mkConfig debugOptions)
                = Inl ''engine failed'' \<and> ''engine failed'' \<noteq> [])"
    using h3 h4 h5 by blast
  have l: "orDefault (msg_console_logs ?m) []
      = [\<lparr> le_timestamp = 999, le_data = [LStr ''hello'', LNum 3] \<rparr>]"
    by (simp add: exampleMessage_def orDefault_def)
  have ap: "''Image processing failed: '' @ ''engine failed''
      = ''Image processing failed: engine failed''"
    by simp
  from image_failure_degrades [OF h1 h2 h, of 7 initialServer]
  have "\<exists>c a s'. submit exampleEnv ?m (Some 7) initialServer = ([Callback 7 a], s')
         \<and> latestCapture s' = Some c
         \<and> console_logs c = [\<lparr> le_timestamp = 999, le_data = [LStr ''hello'', LNum 3] \<rparr>]
         \<and> vectorized c = None
         \<and> ack_success a \<and> ack_svg a = None \<and> ack_stats a = None \<and> ack_error a = None
         \<and> ''Image processing failed: engine failed'' \<in> set (errors s')"
    unfolding l ap by (elim exE conjE) (intro exI conjI; assumption)
  with h1 h2 h3 h4 h5 show ?thesis by (intro conjI)
qed

text \<open>
  Against C4 as stated: the acknowledgment of a message with an unparseable image has
  no \<open>error\<close> property.
\<close>

theorem ack_carries_no_processing_error:
  "fst (submit exampleEnv (exampleMessage\<lparr> msg_image := Some ''garbage'' \<rparr>) (Some 7) initialServer)
     = [Callback 7 \<lparr> ack_success = True, ack_id = Some ''capture_1000'',
          ack_processedAt = Some 1003, ack_svg = None, ack_stats = None,
          ack_mcpRequestCount = Some 0, ack_mcpRequestWithoutSvgCount = Some 0,
          ack_error = None \<rparr>]"
  by code_simp

lemma engineSettled_record:
  assumes "k < length (pending s)"
  shows "\<exists>cap' s'. engineSettled e k s = publish e cap' (j_callback (pending s ! k)) s'
      \<and> cap'\<lparr> vectorized := None \<rparr> = (j_capture (pending s ! k))\<lparr> vectorized := None \<rparr>
      \<and> pending s' = take k (pending s) @ drop (Suc k) (pending s)
      \<and> (\<forall>doc. vectorize e (j_buffer (pending s ! k)) (j_config (pending s ! k)) = Inr doc
            \<longrightarrow> vectorized cap' = Some \<lparr> svg = Some (vr_svg (conversionResult e s k doc)),
                   imageType = Some (j_imageType (pending s ! k)),
                   stats = Some (vr_stats (conversionResult e s k doc)) \<rparr>)
      \<and> (\<forall>m. vectorize e (j_buffer (pending s ! k)) (j_config (pending s ! k)) = Inl m
               \<and> m \<noteq> []
            \<longrightarrow> cap' = j_capture (pending s ! k))"
proof (cases "vectorize e (j_buffer (pending s ! k)) (j_config (pending s ! k))")
  case (Inr doc)
  let ?c = "(j_capture (pending s ! k))\<lparr> vectorized :=
      Some \<lparr> svg = Some (vr_svg (conversionResult e s k doc)),
             imageType = Some (j_imageType (pending s ! k)),
             stats = Some (vr_stats (conversionResult e s k doc)) \<rparr> \<rparr>"
  from engineSettled_success [OF assms Inr] obtain s' where
    "engineSettled e k s = publish e ?c (j_callback (pending s ! k)) s'"
    "pending s' = take k (pending s) @ drop (Suc k) (pending s)"
    unfolding conversionResult_def by blast
  moreover have "?c\<lparr> vectorized := None \<rparr> = (j_capture (pending s ! k))\<lparr> vectorized := None \<rparr>"
    by simp
  moreover have "vectorized ?c = Some \<lparr> svg = Some (vr_svg (conversionResult e s k doc)),
             imageType = Some (j_imageType (pending s ! k)),
             stats = Some (vr_stats (conversionResult e s k doc)) \<rparr>"
    by simp
  ultimately show ?thesis using Inr
    by (intro exI [of _ ?c] exI [of _ s']) simp
next
  case (Inl m)
  show ?thesis
  proof (cases "m = []")
    case True
    from engineSettled_publishes [OF assms, of e] obtain cap' s' where
      "engineSettled e k s = publish e cap' (j_callback (pending s ! k)) s'"
      "cap'\<lparr> vectorized := None \<rparr> = (j_capture (pending s ! k))\<lparr> vectorized := None \<rparr>"
      "pending s' = take k (pending s) @ drop (Suc k) (pending s)"
      by blast
    with Inl True show ?thesis
      by (intro exI [of _ cap'] exI [of _ s']) simp
  next
    case False
    from engineSettled_failure [OF assms Inl False] obtain s' where
      "engineSettled e k s = publish e (j_capture (pending s ! k)) (j_callback (pending s ! k)) s'"
      "pending s' = take k (pending s) @ drop (Suc k) (pending s)"
      by blast
    with Inl show ?thesis
      by (intro exI [of _ "j_capture (pending s ! k)"] exI [of _ s']) simp
  qed
qed

lemma publish_pending_emitted:
  assumes "step e s ev = publish e c cbo s'" and "Callback cb a \<in> set (fst (step e s ev))"
  shows "cbo = Some cb" and "latestCapture (snd (step e s ev)) = Some c"
    and "pending (snd (step e s ev)) = pending s'"
    and "ack_id a = Some (cap_id c)"
    and "ack_svg a = (case vectorized c of None \<Rightarrow> None | Some v \<Rightarrow> svg v)"
    and "ack_stats a = (case vectorized c of None \<Rightarrow> None | Some v \<Rightarrow> stats v)"
  using publish_emitted [of cb a e c cbo s'] assms
  by (simp_all add: publish_state)

text \<open>
  Claim C5.  The acknowledgment of a submission is delivered only after its whole
  pipeline has resolved, and never precedes publication.  In whatever turn of the event
  loop a producer's callback is invoked with a success acknowledgment, the latest-capture
  slot holds, at the end of that turn, the record whose id, \<open>svg\<close> and \<open>stats\<close> the
  acknowledgment reports, and that turn is the last one of the submission: either the
  turn in which a message whose image does not reach the engine arrived, the record being
  the one made from that message; or the turn in which the engine settled the job of the
  handler that holds this callback, the job leaving the waiting list and the record being
  the job's capture with the outcome of its conversion.  In the turn in which a message
  whose image reaches the engine arrives, nothing is acknowledged and nothing is
  published: the handler only joins the waiting list.
\<close>

theorem ack_after_publication:
  "(\<forall>cb a. Callback cb a \<in> set (fst (step e s ev)) \<and> ack_success a \<longrightarrow>
      (\<exists>c. latestCapture (snd (step e s ev)) = Some c
         \<and> ack_id a = Some (cap_id c)
         \<and> ack_svg a = (case vectorized c of None \<Rightarrow> None | Some v \<Rightarrow> svg v)
         \<and> ack_stats a = (case vectorized c of None \<Rightarrow> None | Some v \<Rightarrow> stats v)
         \<and> ((\<exists>d. ev = DebugCapture (Some d) (Some cb) \<and> \<not> reachesEngine d
                \<and> c = fst (createCapture e d s)
                \<and> pending (snd (step e s ev)) = pending s)
            \<or> (\<exists>k. ev = EngineSettled k \<and> k < length (pending s)
                \<and> j_callback (pending s ! k) = Some cb
                \<and> c\<lparr> vectorized := None \<rparr> = (j_capture (pending s ! k))\<lparr> vectorized := None \<rparr>
                \<and> (\<forall>doc. vectorize e (j_buffer (pending s ! k)) (j_config (pending s ! k)) = Inr doc
                      \<longrightarrow> vectorized c = Some \<lparr> svg = Some (vr_svg (conversionResult e s k doc)),
                             imageType = Some (j_imageType (pending s ! k)),
                             stats = Some (vr_stats (conversionResult e s k doc)) \<rparr>)
                \<and> (\<forall>m. vectorize e (j_buffer (pending s ! k)) (j_config (pending s ! k)) = Inl m
                         \<and> m \<noteq> []
                      \<longrightarrow> c = j_capture (pending s ! k))
                \<and> pending (snd (step e s ev))
                    = take k (pending s) @ drop (Suc k) (pending s)))))
   \<and> (\<forall>d cbo. ev = DebugCapture (Some d) cbo \<and> reachesEngine d \<longrightarrow>
         fst (step e s ev) = []
       \<and> latestCapture (snd (step e s ev)) = latestCapture s
       \<and> (\<exists>j. pending (snd (step e s ev)) = pending s @ [j]
              \<and> j_callback j = cbo \<and> j_capture j = fst (createCapture e d s)))"
proof (rule conjI; intro allI impI)
  fix cb a
  assume "Callback cb a \<in> set (fst (step e s ev)) \<and> ack_success a"
  then have em: "Callback cb a \<in> set (fst (step e s ev))" and ok: "ack_success a"
    by simp_all
  let ?goal = "\<exists>c. latestCapture (snd (step e s ev)) = Some c
         \<and> ack_id a = Some (cap_id c)
         \<and> ack_svg a = (case vectorized c of None \<Rightarrow> None | Some v \<Rightarrow> svg v)
         \<and> ack_stats a = (case vectorized c of None \<Rightarrow> None | Some v \<Rightarrow> stats v)
         \<and> ((\<exists>d. ev = DebugCapture (Some d) (Some cb) \<and> \<not> reachesEngine d
                \<and> c = fst (createCapture e d s)
                \<and> pending (snd (step e s ev)) = pending s)
            \<or> (\<exists>k. ev = EngineSettled k \<and> k < length (pending s)
                \<and> j_callback (pending s ! k) = Some cb
                \<and> c\<lparr> vectorized := None \<rparr> = (j_capture (pending s ! k))\<lparr> vectorized := None \<rparr>
                \<and> (\<forall>doc. vectorize e (j_buffer (pending s ! k)) (j_config (pending s ! k)) = Inr doc
                      \<longrightarrow> vectorized c = Some \<lparr> svg = Some (vr_svg (conversionResult e s k doc)),
                             imageType = Some (j_imageType (pending s ! k)),
                             stats = Some (vr_stats (conversionResult e s k doc)) \<rparr>)
                \<and> (\<forall>m. vectorize e (j_buffer (pending s ! k)) (j_config (pending s ! k)) = Inl m
                         \<and> m \<noteq> []
                      \<longrightarrow> c = j_capture (pending s ! k))
                \<and> pending (snd (step e s ev))
                    = take k (pending s) @ drop (Suc k) (pending s)))"
  show ?goal
  proof (cases ev)
    case (DebugCapture data callback)
    show ?thesis
    proof (cases data)
      case None
      with em ok DebugCapture show ?thesis
        by (auto simp add: step_def debugCapture_def Let_def split: option.splits)
    next
      case (Some d)
      consider (none) "msg_image d = None \<or> msg_image d = Some []"
        | (bad) u where "msg_image d = Some u" "u \<noteq> []" "matchDataUrl u = None"
        | (ok) u ty b64 where "msg_image d = Some u" "u \<noteq> []" "matchDataUrl u = Some (ty, b64)"
        by (cases "msg_image d"; cases "matchDataUrl (the (msg_image d))") auto
      then show ?thesis
      proof cases
        case none
        have st: "step e s ev
            = publish e (fst (createCapture e d s)) callback (snd (createCapture e d s))"
          using debugCapture_no_image [OF none, of e callback s] DebugCapture Some
          by (simp add: step_def)
        have r: "\<not> reachesEngine d"
          using none by (auto simp add: reachesEngine_def)
        from publish_pending_emitted [OF st em] DebugCapture Some r show ?thesis
          by (simp add: createCapture_state)
      next
        case bad
        from debugCapture_undecodable [OF bad, of e callback s] obtain s' where
          st': "debugCapture e (Some d) callback s
                 = publish e (fst (createCapture e d s)) callback s'"
          and p: "pending s' = pending s"
          by blast
        have st: "step e s ev = publish e (fst (createCapture e d s)) callback s'"
          using st' DebugCapture Some by (simp add: step_def)
        have r: "\<not> reachesEngine d"
          using bad by (simp add: reachesEngine_def)
        from publish_pending_emitted [OF st em] DebugCapture Some r p show ?thesis
          by simp
      next
        case ok
        from debugCapture_queued [OF ok, of e callback s] DebugCapture Some em
        show ?thesis by (auto simp add: step_def)
      qed
    qed
  next
    case (EngineSettled k)
    show ?thesis
    proof (cases "k < length (pending s)")
      case True
      from engineSettled_record [OF True, of e] obtain cap' s' where
        es: "engineSettled e k s = publish e cap' (j_callback (pending s ! k)) s'"
        and core: "cap'\<lparr> vectorized := None \<rparr> = (j_capture (pending s ! k))\<lparr> vectorized := None \<rparr>"
        and p: "pending s' = take k (pending s) @ drop (Suc k) (pending s)"
        and good: "\<forall>doc. vectorize e (j_buffer (pending s ! k)) (j_config (pending s ! k)) = Inr doc
            \<longrightarrow> vectorized cap' = Some \<lparr> svg = Some (vr_svg (conversionResult e s k doc)),
                   imageType = Some (j_imageType (pending s ! k)),
                   stats = Some (vr_stats (conversionResult e s k doc)) \<rparr>"
        and bad: "\<forall>m. vectorize e (j_buffer (pending s ! k)) (j_config (pending s ! k)) = Inl m
               \<and> m \<noteq> []
            \<longrightarrow> cap' = j_capture (pending s ! k)"
        by blast
      have st: "step e s ev = publish e cap' (j_callback (pending s ! k)) s'"
        using es EngineSettled by (simp add: step_def)
      from publish_pending_emitted [OF st em] have
        f: "j_callback (pending s ! k) = Some cb" "latestCapture (snd (step e s ev)) = Some cap'"
          "pending (snd (step e s ev)) = pending s'" "ack_id a = Some (cap_id cap')"
          "ack_svg a = (case vectorized cap' of None \<Rightarrow> None | Some v \<Rightarrow> svg v)"
          "ack_stats a = (case vectorized cap' of None \<Rightarrow> None | Some v \<Rightarrow> stats v)"
        by simp_all
      have "\<exists>k'. ev = EngineSettled k' \<and> k' < length (pending s)
                \<and> j_callback (pending s ! k') = Some cb
                \<and> cap'\<lparr> vectorized := None \<rparr> = (j_capture (pending s ! k'))\<lparr> vectorized := None \<rparr>
                \<and> (\<forall>doc. vectorize e (j_buffer (pending s ! k')) (j_config (pending s ! k')) = Inr doc
                      \<longrightarrow> vectorized cap' = Some \<lparr> svg = Some (vr_svg (conversionResult e s k' doc)),
                             imageType = Some (j_imageType (pending s ! k')),
                             stats = Some (vr_stats (conversionResult e s k' doc)) \<rparr>)
                \<and> (\<forall>m. vectorize e (j_buffer (pending s ! k')) (j_config (pending s ! k')) = Inl m
                         \<and> m \<noteq> []
                      \<longrightarrow> cap' = j_capture (pending s ! k'))
                \<and> pending (snd (step e s ev))
                    = take k' (pending s) @ drop (Suc k') (pending s)"
        using EngineSettled True f(1,3) core good bad p by (intro exI [of _ k]) simp
      with f(2,4,5,6) show ?thesis by blast
    next
      case False
      with em EngineSettled show ?thesis
        by (simp add: step_def engineSettled_out_of_range)
    qed
  next
    case (ToolCall arg)
    with em show ?thesis by (simp add: step_def split: prod.splits)
  next
    case GetLatest
    with em show ?thesis by (simp add: step_def httpLatest_def split: option.splits)
  next
    case (GetLatestCapture n)
    with em show ?thesis by (simp add: step_def getLatestCapture_def split: option.splits)
  next
    case Connection
    with em show ?thesis by (simp add: step_def connection_def split: option.splits)
  qed
next
  fix d cbo
  assume h: "ev = DebugCapture (Some d) cbo \<and> reachesEngine d"
  then obtain u ty b64 where
    img: "msg_image d = Some u" "u \<noteq> []" "matchDataUrl u = Some (ty, b64)"
    by (auto simp add: reachesEngine_def split: option.splits)
  from debugCapture_queued [OF img, of e cbo s] obtain s' j where
    dc: "debugCapture e (Some d) cbo s = ([], s'\<lparr> pending := pending s @ [j] \<rparr>)"
    and l: "latestCapture s' = latestCapture s"
    and j: "j_capture j = fst (createCapture e d s)" "j_callback j = cbo"
    by blast
  have st: "step e s ev = ([], s'\<lparr> pending := pending s @ [j] \<rparr>)"
    using h dc by (simp add: step_def)
  show "fst (step e s ev) = []
       \<and> latestCapture (snd (step e s ev)) = latestCapture s
       \<and> (\<exists>j. pending (snd (step e s ev)) = pending s @ [j]
              \<and> j_callback j = cbo \<and> j_capture j = fst (createCapture e d s))"
    using st l j by simp
qed

theorem ack_after_publication_witness:
  "Callback 7 exampleAck \<in> set (fst (step exampleEnv exampleWaiting (EngineSettled 0)))
   \<and> ack_success exampleAck
   \<and> reachesEngine exampleMessage
   \<and> fst (step exampleEnv initialServer (DebugCapture (Some exampleMessage) (Some 7))) = []
   \<and> latestCapture (snd (step exampleEnv initialServer
         (DebugCapture (Some exampleMessage) (Some 7)))) = latestCapture initialServer
   \<and> (\<exists>c. latestCapture (snd (step exampleEnv exampleWaiting (EngineSettled 0))) = Some c
      \<and> ack_id exampleAck = Some (cap_id c)
      \<and> ack_svg exampleAck = (case vectorized c of None \<Rightarrow> None | Some v \<Rightarrow> svg v)
      \<and> ack_stats exampleAck = (case vectorized c of None \<Rightarrow> None | Some v \<Rightarrow> stats v)
      \<and> j_callback (pending exampleWaiting ! 0) = Some 7
      \<and> pending (snd (step exampleEnv exampleWaiting (EngineSettled 0))) = [])"
proof -
  have h1: "Callback 7 exampleAck \<in> set (fst (step exampleEnv exampleWaiting (EngineSettled 0)))"
    by code_simp
  have h2: "ack_success exampleAck"
    by (simp add: exampleAck_def)
  have h3: "reachesEngine exampleMessage"
    by code_simp
  have one: "drop (Suc 0) (pending exampleWaiting) = []"
    by code_simp
  from ack_after_publication [of exampleEnv exampleWaiting "EngineSettled 0",
      THEN conjunct1, rule_format, OF conjI [OF h1 h2]]
  obtain c where c: "latestCapture (snd (step exampleEnv exampleWaiting (EngineSettled 0))) = Some c"
      "ack_id exampleAck = Some (cap_id c)"
      "ack_svg exampleAck = (case vectorized c of None \<Rightarrow> None | Some v \<Rightarrow> svg v)"
      "ack_stats exampleAck = (case vectorized c of None \<Rightarrow> None | Some v \<Rightarrow> stats v)"
    and k: "j_callback (pending exampleWaiting ! 0) = Some 7"
      "pending (snd (step exampleEnv exampleWaiting (EngineSettled 0)))
         = drop (Suc 0) (pending exampleWaiting)"
    by auto
  from k one have k0: "j_callback (pending exampleWaiting ! 0) = Some 7"
    "pending (snd (step exampleEnv exampleWaiting (EngineSettled 0))) = []"
    by simp_all
  from ack_after_publication [of exampleEnv initialServer
      "DebugCapture (Some exampleMessage) (Some 7)", THEN conjunct2, rule_format,
      OF conjI [OF refl h3]]
  have q: "fst (step exampleEnv initialServer (DebugCapture (Some exampleMessage) (Some 7))) = []"
    "latestCapture (snd (step exampleEnv initialServer
         (DebugCapture (Some exampleMessage) (Some 7)))) = latestCapture initialServer"
    by blast+
  from c k0 have "\<exists>c. latestCapture (snd (step exampleEnv exampleWaiting (EngineSettled 0))) = Some c
      \<and> ack_id exampleAck = Some (cap_id c)
      \<and> ack_svg exampleAck = (case vectorized c of None \<Rightarrow> None | Some v \<Rightarrow> svg v)
      \<and> ack_stats exampleAck = (case vectorized c of None \<Rightarrow> None | Some v \<Rightarrow> stats v)
      \<and> j_callback (pending exampleWaiting ! 0) = Some 7
      \<and> pending (snd (step exampleEnv exampleWaiting (EngineSettled 0))) = []"
    by blast
  with h1 h2 h3 q show ?thesis
    by (intro conjI)
qed

subsection \<open>Identifiers\<close>

lemma code_digit: "d < 10 \<Longrightarrow> code (digit d) = 48 + d"
  by (simp add: code_def digit_def)

lemma digit_inj:
  assumes "a < 10" and "b < 10" and "digit a = digit b"
  shows "a = b"
proof -
  have "48 + a = code (digit a)" using assms(1) by (simp only: code_digit)
  also have "\<dots> = code (digit b)" using assms(3) by (simp only:)
  also have "\<dots> = 48 + b" using assms(2) by (simp only: code_digit)
  finally show ?thesis by simp
qed

lemma showNat_nonempty: "showNat n \<noteq> []"
  by (subst showNat.simps) simp

lemma showNat_digits: "c \<in> set (showNat n) \<Longrightarrow> 48 \<le> code c \<and> code c \<le> 57"
proof (induction n rule: showNat.induct)
  case (1 n)
  show ?case
  proof (cases "n < 10")
    case True
    with 1(2) show ?thesis
      by (subst (asm) showNat.simps) (simp add: code_digit)
  next
    case False
    have "n mod 10 < 10" by simp
    then have "code (digit (n mod 10)) = 48 + n mod 10" by (rule code_digit)
    with False 1 show ?thesis
      by (subst (asm) (2) showNat.simps) auto
  qed
qed

lemma showNat_inj: "showNat n = showNat m \<Longrightarrow> n = m"
proof (induction n arbitrary: m rule: showNat.induct)
  case (1 n)
  show ?case
  proof (cases "n < 10")
    case n: True
    show ?thesis
    proof (cases "m < 10")
      case True
      with n 1(2) show ?thesis
        by (simp add: showNat.simps [of n] showNat.simps [of m] digit_inj)
    next
      case False
      with n 1(2) showNat_nonempty [of "m div 10"] show ?thesis
        by (simp add: showNat.simps [of n] showNat.simps [of m])
    qed
  next
    case n: False
    show ?thesis
    proof (cases "m < 10")
      case True
      with n 1(2) showNat_nonempty [of "n div 10"] show ?thesis
        by (simp add: showNat.simps [of n] showNat.simps [of m])
    next
      case False
      with n 1(2) have eq: "showNat (n div 10) = showNat (m div 10)"
        and dg: "digit (n mod 10) = digit (m mod 10)"
        by (simp_all add: showNat.simps [of n] showNat.simps [of m])
      from 1(1) [OF n eq] have "n div 10 = m div 10" .
      moreover from dg have "n mod 10 = m mod 10"
        by (rule digit_inj [rotated 2]) simp_all
      ultimately show ?thesis
        by (metis div_mult_mod_eq)
    qed
  qed
qed

lemma showNat_no_minus: "showNat n \<noteq> CHR ''-'' # cs"
proof
  assume "showNat n = CHR ''-'' # cs"
  then have "CHR ''-'' \<in> set (showNat n)" by simp
  from showNat_digits [OF this] show False by (simp add: code_def)
qed

lemma showInt_inj: "showInt i = showInt j \<Longrightarrow> i = j"
proof -
  assume a: "showInt i = showInt j"
  consider "i < 0" "j < 0" | "i < 0" "0 \<le> j" | "0 \<le> i" "j < 0" | "0 \<le> i" "0 \<le> j"
    by linarith
  then show ?thesis
  proof cases
    case 1
    with a have "showNat (nat (- i)) = showNat (nat (- j))" by (simp add: showInt_def)
    then have "nat (- i) = nat (- j)" by (rule showNat_inj)
    with 1 show ?thesis by simp
  next
    case 2
    with a have "showNat (nat j) = CHR ''-'' # showNat (nat (- i))"
      by (simp add: showInt_def)
    with showNat_no_minus show ?thesis by blast
  next
    case 3
    with a have "showNat (nat i) = CHR ''-'' # showNat (nat (- j))"
      by (simp add: showInt_def)
    with showNat_no_minus show ?thesis by blast
  next
    case 4
    with a have "showNat (nat i) = showNat (nat j)" by (simp add: showInt_def)
    then have "nat i = nat j" by (rule showNat_inj)
    with 4 show ?thesis by simp
  qed
qed

text \<open>
  Claim C9, as amended.  The id of a published record is \<open>capture_\<close> followed by the
  decimal reading of the clock at the creation of the record, in milliseconds; the ids of
  two captures are equal exactly when those two readings are equal.
\<close>

theorem capture_id_embeds_time:
  "\<exists>c c'. latestCapture (snd (submit e d cb s)) = Some c
      \<and> latestCapture (snd (submit e' d' cb' s')) = Some c'
      \<and> cap_id c = ''capture_'' @ showInt (dateNow e (dateTicks s))
      \<and> ((cap_id c = cap_id c') = (dateNow e (dateTicks s) = dateNow e' (dateTicks s')))"
proof -
  obtain c s1 where c: "submit e d cb s = publish e c cb s1"
    "c\<lparr> vectorized := None \<rparr> = fst (createCapture e d s)"
    using submit_publishes by blast
  obtain c' s1' where c': "submit e' d' cb' s' = publish e' c' cb' s1'"
    "c'\<lparr> vectorized := None \<rparr> = fst (createCapture e' d' s')"
    using submit_publishes by blast
  have "cap_id c = cap_id (c\<lparr> vectorized := None \<rparr>)" by simp
  then have i: "cap_id c = ''capture_'' @ showInt (dateNow e (dateTicks s))"
    unfolding c(2) by (simp only: createCapture_fields)
  have "cap_id c' = cap_id (c'\<lparr> vectorized := None \<rparr>)" by simp
  then have i': "cap_id c' = ''capture_'' @ showInt (dateNow e' (dateTicks s'))"
    unfolding c'(2) by (simp only: createCapture_fields)
  have "(cap_id c = cap_id c') = (dateNow e (dateTicks s) = dateNow e' (dateTicks s'))"
    unfolding i i' using showInt_inj by auto
  moreover have "latestCapture (snd (submit e d cb s)) = Some c"
    "latestCapture (snd (submit e' d' cb' s')) = Some c'"
    by (simp_all add: c(1) c'(1) publish_state)
  ultimately show ?thesis using i by blast
qed

theorem capture_id_embeds_time_witness:
  "\<exists>c c'. latestCapture (snd (submit exampleEnv (logsOnly ''first'') None initialServer)) = Some c
      \<and> latestCapture (snd (submit exampleEnv (logsOnly ''second'') None
            (initialServer\<lparr> dateTicks := 5 \<rparr>))) = Some c'
      \<and> cap_id c = ''capture_1000'' \<and> cap_id c \<noteq> cap_id c'"
proof -
  have t: "dateNow exampleEnv (dateTicks initialServer) = 1000"
    "dateNow exampleEnv (dateTicks (initialServer\<lparr> dateTicks := 5 \<rparr>)) = 1005"
    by (simp_all add: exampleEnv_def initialServer_def)
  have n: "''capture_'' @ showInt 1000 = ''capture_1000''"
    by code_simp
  from capture_id_embeds_time [of exampleEnv "logsOnly ''first''" None initialServer
      exampleEnv "logsOnly ''second''" None "initialServer\<lparr> dateTicks := 5 \<rparr>"]
  show ?thesis
    unfolding t n by auto
qed

text \<open>
  Against C9 as stated: two different captures created within the same millisecond
  receive the same id.
\<close>

theorem same_millisecond_same_id:
  "fst (run sameMillisecondEnv initialServer
         [DebugCapture (Some (logsOnly ''first'')) (Some 1),
          DebugCapture (Some (logsOnly ''second'')) (Some 2)])
     = [Callback 1 \<lparr> ack_success = True, ack_id = Some ''capture_1000'',
          ack_processedAt = Some 1000, ack_svg = None, ack_stats = None,
          ack_mcpRequestCount = Some 0, ack_mcpRequestWithoutSvgCount = Some 0,
          ack_error = None \<rparr>,
        Callback 2 \<lparr> ack_success = True, ack_id = Some ''capture_1000'',
          ack_processedAt = Some 1000, ack_svg = None, ack_stats = None,
          ack_mcpRequestCount = Some 0, ack_mcpRequestWithoutSvgCount = Some 0,
          ack_error = None \<rparr>]"
  by code_simp

subsection \<open>Conversions in flight\<close>

lemma step_pending:
  "length (pending (snd (step e s ev)))
     \<le> (case ev of DebugCapture data cb \<Rightarrow> Suc (length (pending s)) | _ \<Rightarrow> length (pending s))"
proof (cases ev)
  case (DebugCapture data callback)
  show ?thesis
  proof (cases data)
    case None
    with DebugCapture show ?thesis
      by (simp add: step_def debugCapture_def consoleError_def Let_def split: option.splits)
  next
    case (Some d)
    consider (none) "msg_image d = None \<or> msg_image d = Some []"
      | (bad) u where "msg_image d = Some u" "u \<noteq> []" "matchDataUrl u = None"
      | (ok) u ty b64 where "msg_image d = Some u" "u \<noteq> []" "matchDataUrl u = Some (ty, b64)"
      by (cases "msg_image d"; cases "matchDataUrl (the (msg_image d))") auto
    then show ?thesis
    proof cases
      case none
      from debugCapture_no_image [OF none, of e callback s] DebugCapture Some
      show ?thesis by (simp add: step_def publish_state createCapture_state)
    next
      case bad
      from debugCapture_undecodable [OF bad, of e callback s] DebugCapture Some
      show ?thesis by (auto simp add: step_def publish_state)
    next
      case ok
      from debugCapture_queued [OF ok, of e callback s] DebugCapture Some
      show ?thesis by (auto simp add: step_def)
    qed
  qed
next
  case (EngineSettled k)
  show ?thesis
  proof (cases "k < length (pending s)")
    case True
    from engineSettled_publishes [OF True, of e] EngineSettled True
    show ?thesis by (auto simp add: step_def publish_state)
  next
    case False
    with EngineSettled show ?thesis
      by (simp add: step_def engineSettled_out_of_range)
  qed
next
  case (ToolCall arg)
  then show ?thesis
    by (simp add: step_def getGameDebugInfoWithLogsAndVisualization_def Let_def
          split: prod.splits option.splits sum.splits)
next
  case GetLatest
  then show ?thesis by (simp add: step_def)
next
  case (GetLatestCapture n)
  then show ?thesis by (simp add: step_def)
next
  case Connection
  then show ?thesis by (simp add: step_def)
qed

lemma run_take_Cons:
  "snd (run e s (take (Suc n) (ev # evs))) = snd (run e (snd (step e s ev)) (take n evs))"
  by (simp add: Let_def split: prod.splits)

text \<open>
  Where the conversions do stay apart: in a run in which every capture arrives while no
  handler waits for the engine, at most one conversion is outstanding at every moment.
  Nothing in the coordinator brings this about; it is a condition on the arrivals.
\<close>

lemma one_conversion_when_none_waits:
  assumes "noneWaitingAtArrival e s evs" and "length (pending s) \<le> 1"
  shows "length (pending (snd (run e s (take n evs)))) \<le> 1"
  using assms
proof (induction evs arbitrary: s n)
  case Nil
  then show ?case by simp
next
  case (Cons ev evs)
  show ?case
  proof (cases n)
    case 0
    with Cons.prems show ?thesis by simp
  next
    case (Suc k)
    have d: "noneWaitingAtArrival e (snd (step e s ev)) evs"
      using Cons.prems(1) by simp
    have "length (pending (snd (step e s ev))) \<le> 1"
    proof (cases ev)
      case (DebugCapture data cb)
      with Cons.prems(1) have "pending s = []" by simp
      with step_pending [of e s ev] DebugCapture show ?thesis by simp
    qed (use step_pending [of e s ev] Cons.prems(2) in simp_all)
    from Cons.IH [OF d this, of k] Suc show ?thesis
      by (simp only: run_take_Cons)
  qed
qed

text \<open>
  Claim C1 at a failing input.  The server is documented to process images
  sequentially, and the claim says the engine is not invoked for a second submission
  before the first invocation has run to completion.  Two producers send their first
  capture one after the other, before the engine has settled anything: the second handler
  calls the engine as well.  At the end of the two turns nothing has been acknowledged,
  and both handlers, each with its own engine call, are waiting.
\<close>

theorem second_conversion_overlaps_first:
  "fst (run exampleEnv initialServer
      [DebugCapture (Some exampleMessage) (Some 1),
       DebugCapture (Some exampleMessage) (Some 2)]) = []
   \<and> map j_callback (pending (snd (run exampleEnv initialServer
      [DebugCapture (Some exampleMessage) (Some 1),
       DebugCapture (Some exampleMessage) (Some 2)]))) = [Some 1, Some 2]
   \<and> map j_buffer (pending (snd (run exampleEnv initialServer
      [DebugCapture (Some exampleMessage) (Some 1),
       DebugCapture (Some exampleMessage) (Some 2)]))) = [''QQ'', ''QQ'']"
  by code_simp

section \<open>The query tool\<close>

lemma textContent_vectorized:
  "textContent e (cap\<lparr> vectorized := x \<rparr>) = textContent e cap"
  by (simp add: textContent_def cong: sum.case_cong option.case_cong)

lemma deleteSvg_text: "textContent e (deleteSvg cap) = textContent e cap"
  by (cases "vectorized cap") (simp_all add: deleteSvg_def textContent_vectorized)

lemma formatEntries_valid:
  assumes "list_all (\<lambda>l. validTime (le_timestamp l)) ls"
  shows "\<exists>xs. formatEntries e ls = Inr xs"
  using assms
proof (induction ls)
  case Nil
  then show ?case by simp
next
  case (Cons l ls)
  then obtain xs where "formatEntries e ls = Inr xs"
    by auto
  with Cons.prems show ?case
    by (simp add: formatEntry_def isoString_def)
qed

lemma textContent_valid:
  assumes "datesValid cap"
  shows "\<exists>text. textContent e cap = Inr text"
proof -
  obtain ls where ls: "formatEntries e (console_logs cap) = Inr ls"
    using assms formatEntries_valid unfolding datesValid_def by blast
  obtain es where es: "formatEntries e (console_errors cap) = Inr es"
    using assms formatEntries_valid unfolding datesValid_def by blast
  have t: "isoString e (timestamp cap) = Inr (toISOString e (timestamp cap))"
    using assms by (simp add: datesValid_def isoString_def)
  show ?thesis
    by (simp add: textContent_def ls es t)
qed

text \<open>
  Claim C3, as amended.  For every retained record that carries a non-empty vector
  document and whose timestamps, its own and those of its log and error entries, are
  valid dates, the query with \<open>includeSvg\<close> true returns a single text item, the
  narrative followed by the document, verbatim, in an \<open>svg\<close> code block, and no separate
  structured payload; the query with \<open>includeSvg\<close> false returns the narrative alone,
  which is the text the record gives without its \<open>vectorized\<close> field.
\<close>

theorem visualization_flag:
  assumes "latestCapture s = Some cap" and "vectorized cap = Some v" and "svg v = Some doc"
    and "doc \<noteq> []" and "datesValid cap"
  shows "\<exists>text. textContent e cap = Inr text
       \<and> fst (getGameDebugInfoWithLogsAndVisualization e True s)
           = Inr \<lparr> tr_success = True,
                   tr_content = [\<lparr> item_type = ''text'', item_text = text @ svgBlock doc \<rparr>] \<rparr>
       \<and> fst (getGameDebugInfoWithLogsAndVisualization e False s)
           = Inr \<lparr> tr_success = True, tr_content = [\<lparr> item_type = ''text'', item_text = text \<rparr>] \<rparr>
       \<and> textContent e (cap\<lparr> vectorized := None \<rparr>) = Inr text"
proof -
  obtain narr where nt: "textContent e cap = Inr narr"
    using textContent_valid [OF assms(5)] by blast
  have t: "fst (getGameDebugInfoWithLogsAndVisualization e True s)
           = Inr \<lparr> tr_success = True,
                   tr_content = [\<lparr> item_type = ''text'', item_text = narr @ svgBlock doc \<rparr>] \<rparr>"
    using assms(1-4) nt by (simp add: getGameDebugInfoWithLogsAndVisualization_def Let_def)
  have "vectorized (deleteSvg cap) = Some (v\<lparr> svg := None \<rparr>)"
    using assms(2) by (simp add: deleteSvg_def)
  then have f: "fst (getGameDebugInfoWithLogsAndVisualization e False s)
           = Inr \<lparr> tr_success = True, tr_content = [\<lparr> item_type = ''text'', item_text = narr \<rparr>] \<rparr>"
    using assms(1) nt
    by (simp add: getGameDebugInfoWithLogsAndVisualization_def Let_def deleteSvg_text)
  have n: "textContent e (cap\<lparr> vectorized := None \<rparr>) = Inr narr"
    using nt by (simp only: textContent_vectorized)
  from nt t f n show ?thesis by blast
qed

theorem visualization_flag_witness:
  "latestCapture examplePublished = Some exampleCapture
   \<and> vectorized exampleCapture = Some exampleVectorized
   \<and> svg exampleVectorized = Some ''<svgfill=#99FF00>QQ</svg>''
   \<and> ''<svgfill=#99FF00>QQ</svg>'' \<noteq> []
   \<and> datesValid exampleCapture
   \<and> fst (getGameDebugInfoWithLogsAndVisualization exampleEnv True examplePublished)
       = Inr \<lparr> tr_success = True,
               tr_content = [\<lparr> item_type = ''text'',
                  item_text = exampleNarrative @ svgBlock ''<svgfill=#99FF00>QQ</svg>'' \<rparr>] \<rparr>
   \<and> fst (getGameDebugInfoWithLogsAndVisualization exampleEnv False examplePublished)
       = Inr \<lparr> tr_success = True,
               tr_content = [\<lparr> item_type = ''text'', item_text = exampleNarrative \<rparr>] \<rparr>
   \<and> textContent exampleEnv (exampleCapture\<lparr> vectorized := None \<rparr>) = Inr exampleNarrative"
proof -
  have h1: "latestCapture examplePublished = Some exampleCapture"
    by code_simp
  have h2: "vectorized exampleCapture = Some exampleVectorized"
    by (simp add: exampleCapture_def)
  have h3: "svg exampleVectorized = Some ''<svgfill=#99FF00>QQ</svg>''"
    by (simp add: exampleVectorized_def)
  have h4: "''<svgfill=#99FF00>QQ</svg>'' \<noteq> []"
    by simp
  have h5: "datesValid exampleCapture"
    by (simp add: datesValid_def exampleCapture_def validTime_def)
  have n: "textContent exampleEnv exampleCapture = Inr exampleNarrative"
    by code_simp
  from visualization_flag [OF h1 h2 h3 h4 h5, of exampleEnv] obtain narr where
    t: "textContent exampleEnv exampleCapture = Inr narr"
    and r: "fst (getGameDebugInfoWithLogsAndVisualization exampleEnv True examplePublished)
       = Inr \<lparr> tr_success = True,
               tr_content = [\<lparr> item_type = ''text'',
                  item_text = narr @ svgBlock ''<svgfill=#99FF00>QQ</svg>'' \<rparr>] \<rparr>"
      "fst (getGameDebugInfoWithLogsAndVisualization exampleEnv False examplePublished)
       = Inr \<lparr> tr_success = True,
               tr_content = [\<lparr> item_type = ''text'', item_text = narr \<rparr>] \<rparr>"
      "textContent exampleEnv (exampleCapture\<lparr> vectorized := None \<rparr>) = Inr narr"
    by blast
  from t n have "narr = exampleNarrative"
    by simp
  with r h1 h2 h3 h4 h5 show ?thesis
    by (intro conjI) simp_all
qed

text \<open>
  Against C3 as stated.  The response with the visualisation consists of one text item;
  the document is nowhere else in it.  And a record retained with its document, whose
  timestamp is one millisecond past the last valid date, gets no response at all: the
  tool throws.
\<close>

theorem response_is_one_text_item:
  "fst (getGameDebugInfoWithLogsAndVisualization exampleEnv True examplePublished)
     = Inr \<lparr> tr_success = True,
             tr_content = [\<lparr> item_type = ''text'',
                             item_text = exampleNarrative @ svgBlock ''<svgfill=#99FF00>QQ</svg>'' \<rparr>] \<rparr>
   \<and> retainedSvg badDatePublished = Some ''<svgfill=#99FF00>QQ</svg>''
   \<and> fst (getGameDebugInfoWithLogsAndVisualization exampleEnv True badDatePublished)
       = Inl ''Invalid time value''"
  by code_simp

text \<open>
  Claim C2 at a failing input.  A query with \<open>includeSvg\<close> false deletes the vector
  document from the retained record itself: the next query, with \<open>includeSvg\<close> true, has
  no visualisation to return.
\<close>

theorem query_without_svg_deletes_retained_svg:
  "retainedSvg examplePublished = Some ''<svgfill=#99FF00>QQ</svg>''
   \<and> retainedSvg (snd (step exampleEnv examplePublished (ToolCall (Some False)))) = None
   \<and> fst (run exampleEnv examplePublished [ToolCall (Some False), ToolCall (Some True)])
       = [ToolReturn (Inr \<lparr> tr_success = True,
            tr_content = [\<lparr> item_type = ''text'', item_text = exampleNarrative \<rparr>] \<rparr>),
          ToolReturn (Inr \<lparr> tr_success = True,
            tr_content = [\<lparr> item_type = ''text'', item_text = exampleNarrative \<rparr>] \<rparr>)]"
  by code_simp

lemma other_reads_keep_record:
  assumes "ev = ToolCall None \<or> ev = ToolCall (Some True) \<or> ev = GetLatest
         \<or> ev = GetLatestCapture cb \<or> ev = Connection"
  shows "latestCapture (snd (step e s ev)) = latestCapture s"
  using assms
  by (auto simp add: step_def getGameDebugInfoWithLogsAndVisualization_def Let_def orDefault_def
        split: prod.splits option.splits sum.splits)

end
